theory Spec2Isabelle
  imports
    Main
    "HOL-Library.Sublist"
    "HOL-Library.AList"
    "HOL-Library.Char_ord"
    "HOL-Library.List_Lexorder"
begin

section \<open>Sonar Issue Finder: the issue pipeline of \<open>src/extension.ts\<close>\<close>

text \<open>
  The embedding follows \<open>src/extension.ts\<close> function by function. JavaScript values
  that may be \<open>undefined\<close> are options, a thrown exception is the left summand of a
  result, and everything the extension reads from its host (the editor, the file system,
  the network, the lint engine) is a field of the record \<open>host\<close>. Everything it
  writes (messages, requests, lint runs, diagnostics) is a field of the record
  \<open>world\<close>, passed through the functions and returned updated.
\<close>

subsection \<open>JavaScript conventions\<close>

text \<open>
  A value thrown inside the extension: either a \<open>TypeError\<close> raised by a property
  access on \<open>undefined\<close>, or an error with a message that a host operation threw.
\<close>

datatype js_error = TypeError | Thrown string

text \<open>\<open>`${x}`\<close> for a string that may be \<open>undefined\<close>.\<close>

definition templ :: "string option \<Rightarrow> string" where
  "templ s = (case s of None \<Rightarrow> ''undefined'' | Some v \<Rightarrow> v)"

text \<open>Truthiness of a string that may be \<open>undefined\<close>: the empty string is falsy.\<close>

definition truthy :: "string option \<Rightarrow> bool" where
  "truthy s = (case s of None \<Rightarrow> False | Some v \<Rightarrow> v \<noteq> [])"

text \<open>\<open>s || d\<close> for a string \<open>s\<close> that may be \<open>undefined\<close>.\<close>

definition orString :: "string option \<Rightarrow> string \<Rightarrow> string" where
  "orString s d = (case s of None \<Rightarrow> d | Some v \<Rightarrow> if v = [] then d else v)"

text \<open>\<open>n || d\<close> for a number \<open>n\<close> that may be \<open>undefined\<close>: zero is falsy.\<close>

definition orNumber :: "int option \<Rightarrow> int \<Rightarrow> int" where
  "orNumber n d = (case n of None \<Rightarrow> d | Some v \<Rightarrow> if v = 0 then d else v)"

text \<open>
  \<open>s.replace(pat, "")\<close> with a string pattern: the first occurrence of \<open>pat\<close> in
  \<open>s\<close> is removed, wherever it stands.
\<close>

fun removeFirst :: "string \<Rightarrow> string \<Rightarrow> string" where
  "removeFirst pat [] = []"
| "removeFirst pat (c # cs) =
     (if prefix pat (c # cs) then drop (length pat) (c # cs) else c # removeFirst pat cs)"

text \<open>\<open>s.replace(/^\/+/, "")\<close>: the leading slashes are removed.\<close>

definition stripLeadingSlashes :: "string \<Rightarrow> string" where
  "stripLeadingSlashes s = dropWhile (\<lambda>c. c = CHR ''/'') s"

text \<open>\<open>xs.join(",")\<close>.\<close>

fun joinComma :: "string list \<Rightarrow> string" where
  "joinComma [] = []"
| "joinComma [x] = x"
| "joinComma (x # y # ys) = x @ '','' @ joinComma (y # ys)"

subsection \<open>Issue model\<close>

record SonarIssue =
  message :: string
  rule :: string
  severity :: string
  filePath :: string
  line :: int

text \<open>\<open>TreeItemElement = string | SonarIssue\<close>.\<close>

datatype TreeItemElement = FileKey string | IssueNode SonarIssue

subsection \<open>Tree provider\<close>

text \<open>
  The \<open>Map\<close> of the provider keeps its keys in insertion order, so it is an association
  list: \<open>AList.update\<close> is \<open>Map.set\<close> (an existing key keeps its place, a new one goes
  last) and \<open>map_of\<close> is \<open>Map.get\<close>. The tree view, when one is attached, carries
  the message shown above the tree. Each \<open>fire()\<close> of the change event records what a
  listener reading the provider at that moment sees.
\<close>

record TreeView =
  tvMessage :: "string option"

record snapshot =
  seenIssuesByFile :: "(string \<times> SonarIssue list) list"
  seenMessage :: "string option option"

record SonarIssuesProvider =
  issuesByFile :: "(string \<times> SonarIssue list) list"
  treeView :: "TreeView option"
  fired :: "snapshot list"

definition newProvider :: SonarIssuesProvider where
  "newProvider = \<lparr>issuesByFile = [], treeView = None, fired = []\<rparr>"

definition setTreeView :: "TreeView \<Rightarrow> SonarIssuesProvider \<Rightarrow> SonarIssuesProvider" where
  "setTreeView tv p = p\<lparr>treeView := Some tv\<rparr>"

definition noIssuesMessage :: string where
  "noIssuesMessage = '' All good! No issues found.''"

text \<open>The body of the \<open>forEach\<close> of \<open>setIssues\<close>: \<open>has\<close>, \<open>set\<close>, \<open>get\<close>, \<open>push\<close>.\<close>

definition groupIssue :: "(string \<times> SonarIssue list) list \<Rightarrow> SonarIssue \<Rightarrow> (string \<times> SonarIssue list) list" where
  "groupIssue m issue =
     (let m1 = (if map_of m (filePath issue) = None then AList.update (filePath issue) [] m else m)
      in case map_of m1 (filePath issue) of
           None \<Rightarrow> m1
         | Some bucket \<Rightarrow> AList.update (filePath issue) (bucket @ [issue]) m1)"

definition fire :: "SonarIssuesProvider \<Rightarrow> SonarIssuesProvider" where
  "fire p = p\<lparr>fired := fired p @
     [\<lparr>seenIssuesByFile = issuesByFile p, seenMessage = map_option tvMessage (treeView p)\<rparr>]\<rparr>"

definition setIssues :: "SonarIssue list \<Rightarrow> SonarIssuesProvider \<Rightarrow> SonarIssuesProvider" where
  "setIssues issues p =
     (let p1 = p\<lparr>issuesByFile := foldl groupIssue [] issues\<rparr>;
          p2 = (case treeView p1 of
                  None \<Rightarrow> p1
                | Some tv \<Rightarrow>
                    if issues = [] then p1\<lparr>treeView := Some (tv\<lparr>tvMessage := Some noIssuesMessage\<rparr>)\<rparr>
                    else p1\<lparr>treeView := Some (tv\<lparr>tvMessage := None\<rparr>)\<rparr>)
      in fire p2)"

text \<open>
  \<open>getChildren(element?)\<close>. The first test is \<open>!element\<close>, which holds for
  \<open>undefined\<close> and for the empty string; an issue object is always truthy.
  \<open>Array.prototype.sort\<close> without a comparator orders strings by their code units:
  here the lexicographic order of character lists.
\<close>

definition getChildren :: "SonarIssuesProvider \<Rightarrow> TreeItemElement option \<Rightarrow> TreeItemElement list" where
  "getChildren p element =
     (case element of
        None \<Rightarrow> map FileKey (sort (map fst (issuesByFile p)))
      | Some (FileKey k) \<Rightarrow>
          if k = [] then map FileKey (sort (map fst (issuesByFile p)))
          else (case map_of (issuesByFile p) k of
                  None \<Rightarrow> []
                | Some issues \<Rightarrow> map IssueNode issues)
      | Some (IssueNode i) \<Rightarrow> [])"

subsection \<open>Modes\<close>

datatype Mode = OverallAll | OverallFile | NewAll | NewFile

fun modeName :: "Mode \<Rightarrow> string" where
  "modeName OverallAll = ''overall-all''"
| "modeName OverallFile = ''overall-file''"
| "modeName NewAll = ''new-all''"
| "modeName NewFile = ''new-file''"

text \<open>\<open>mode.endsWith("file")\<close> and \<open>mode.startsWith("new")\<close>.\<close>

definition isFileMode :: "Mode \<Rightarrow> bool" where
  "isFileMode mode = suffix ''file'' (modeName mode)"

definition isNewMode :: "Mode \<Rightarrow> bool" where
  "isNewMode mode = prefix ''new'' (modeName mode)"

subsection \<open>Severity mapper\<close>

text \<open>The argument of \<open>mapEslintSeverity\<close> has type \<open>number | string\<close>.\<close>

datatype eslint_severity = Num int | Str string

definition mapEslintSeverity :: "eslint_severity \<Rightarrow> string" where
  "mapEslintSeverity eslintSeverity =
     (if eslintSeverity = Num 2 \<or> eslintSeverity = Str ''error'' then ''CRITICAL''
      else if eslintSeverity = Num 1 \<or> eslintSeverity = Str ''warn'' then ''MAJOR''
      else ''INFO'')"

datatype DiagnosticSeverity = Error | Warning | Information | Hint

record severity_mapping =
  vscodeSeverity :: DiagnosticSeverity
  prefixLabel :: string

definition mapSeverity :: "string \<Rightarrow> severity_mapping" where
  "mapSeverity sev =
     (if sev = ''BLOCKER'' then \<lparr>vscodeSeverity = Error, prefixLabel = ''BLOCKER''\<rparr>
      else if sev = ''CRITICAL'' then \<lparr>vscodeSeverity = Error, prefixLabel = ''CRITICAL''\<rparr>
      else if sev = ''MAJOR'' then \<lparr>vscodeSeverity = Warning, prefixLabel = ''MAJOR''\<rparr>
      else if sev = ''MINOR'' then \<lparr>vscodeSeverity = Information, prefixLabel = ''MINOR''\<rparr>
      else if sev = ''INFO'' then \<lparr>vscodeSeverity = Information, prefixLabel = ''INFO''\<rparr>
      else \<lparr>vscodeSeverity = Information, prefixLabel = ''INFO''\<rparr>)"

subsection \<open>The host and the world\<close>

text \<open>
  A search request: the pieces of the URL
  \<open>${server}/api/issues/search?componentKeys=..&severities=..&statuses=..&p=..&ps=..${extraFilter}\<close>
  and the credentials \<open>${token}:\<close> of the basic-auth header (before base64).
\<close>

record request =
  reqServer :: string
  reqComponentKeys :: string
  reqSeverities :: string
  reqStatuses :: string
  reqPage :: nat
  reqPageSize :: nat
  reqExtraFilter :: string
  reqCredentials :: string

text \<open>A raw issue record of the server (\<open>any\<close> in the source): every field may be missing.\<close>

record text_range =
  startLine :: "int option"

record raw_issue =
  rawComponent :: "string option"
  rawMessage :: "string option"
  rawRule :: "string option"
  rawSeverity :: "string option"
  rawTextRange :: "text_range option"

record paging_info =
  pagingTotal :: "int option"

record search_page =
  dataIssues :: "raw_issue list option"
  dataPaging :: "paging_info option"

text \<open>A response: \<open>res.ok\<close>, and \<open>res.json()\<close>, which rejects or gives the page.\<close>

record http_response =
  ok :: bool
  json :: "string + search_page"

record lint_message =
  lintMessage :: string
  ruleId :: "string option"
  lintSeverity :: eslint_severity
  lintLine :: int

record lint_result =
  resultFilePath :: string
  messages :: "lint_message list"

record sonar_config =
  cfgServer :: "string option"
  cfgToken :: "string option"
  cfgProjectKey :: "string option"

text \<open>
  What the extension reads. \<open>workspaceFolders\<close> are the folders' \<open>uri.fsPath\<close>;
  \<open>activeFile\<close> is \<open>activeTextEditor?.document.uri.fsPath\<close>; \<open>readConfig\<close> is
  \<open>JSON.parse(fs.readFileSync(path, "utf8"))\<close> followed by the destructuring, \<open>Inl\<close>
  when one of them throws; \<open>pathJoin\<close> and \<open>pathRelative\<close> are Node's
  \<open>path.join\<close> and \<open>path.relative\<close>; \<open>configuredSeverities\<close> is the workspace
  setting \<open>sonarExtension.selectedSeverities\<close> read by \<open>fetchIssues\<close> and
  \<open>selectedSeverities\<close> the module variable read by \<open>refreshAllIssues\<close>;
  \<open>fetch\<close> answers a request or rejects; \<open>workspaceFiles\<close> are the files of
  the workspace, each with its path relative to its workspace folder (slashes between
  the segments) and its \<open>uri.fsPath\<close>, and \<open>searchFailure\<close> is the error, if
  any, with which a search of the workspace rejects; \<open>lintFiles\<close> is
  \<open>new ESLint(..).lintFiles(files)\<close>. \<open>Uri.file(p).fsPath\<close> is taken to be \<open>p\<close>,
  and the constructors of the editor API (\<open>Range\<close>, \<open>Diagnostic\<close>) are taken
  to succeed.
\<close>

record host =
  workspaceFolders :: "string list option"
  activeFile :: "string option"
  existsSync :: "string \<Rightarrow> bool"
  readConfig :: "string \<Rightarrow> string + sonar_config"
  pathJoin :: "string list \<Rightarrow> string"
  pathRelative :: "string \<Rightarrow> string \<Rightarrow> string"
  configuredSeverities :: "string list"
  selectedSeverities :: "string list"
  fetch :: "request \<Rightarrow> string + http_response"
  workspaceFiles :: "(string \<times> string) list"
  searchFailure :: "string option"
  lintFiles :: "string list \<Rightarrow> string + lint_result list"

record vs_range =
  rangeStartLine :: int
  rangeStartCharacter :: nat
  rangeEndLine :: int
  rangeEndCharacter :: nat

record diagnostic =
  diagRange :: vs_range
  diagMessage :: string
  diagSeverity :: DiagnosticSeverity
  diagSource :: string

text \<open>
  What the extension writes: the texts of \<open>showWarningMessage\<close> and
  \<open>showErrorMessage\<close>, the errors given to \<open>console.error\<close>, the requests sent,
  the file lists given to the lint engine, and the diagnostic collection (by file path).
\<close>

record world =
  warningMessages :: "string list"
  errorMessages :: "string list"
  consoleErrors :: "js_error list"
  requests :: "request list"
  lintRuns :: "string list list"
  diagnosticCollection :: "string \<rightharpoonup> diagnostic list"

subsection \<open>Fetch Sonar\<close>

definition pageSize :: nat where
  "pageSize = 500"

definition searchRequest :: "string option \<Rightarrow> string option \<Rightarrow> string option \<Rightarrow> string \<Rightarrow> string \<Rightarrow> nat \<Rightarrow> request" where
  "searchRequest server token projectKey severitiesParam extraFilter page =
     \<lparr>reqServer = templ server, reqComponentKeys = templ projectKey,
      reqSeverities = severitiesParam, reqStatuses = ''OPEN,REOPENED'',
      reqPage = page, reqPageSize = pageSize, reqExtraFilter = extraFilter,
      reqCredentials = templ token @ '':''\<rparr>"

text \<open>
  One pass through the body of the \<open>while (true)\<close> loop of \<open>fetchIssues\<close>, for
  the answer to the request of page \<open>page\<close>: an exception leaves the loop, a
  \<open>break\<close> ends it, otherwise the page index is incremented. \<open>Break\<close> and
  \<open>Next\<close> carry the records that the pass pushed on \<open>allIssues\<close>.
\<close>

datatype page_outcome = Failed js_error | Break "raw_issue list" | Next "raw_issue list"

definition pageOutcome :: "string + http_response \<Rightarrow> nat \<Rightarrow> page_outcome" where
  "pageOutcome answer page =
     (case answer of
        Inl m \<Rightarrow> Failed (Thrown m)
      | Inr res \<Rightarrow>
          if \<not> ok res then Break []
          else (case json res of
                  Inl m \<Rightarrow> Failed (Thrown m)
                | Inr data \<Rightarrow>
                    (case dataIssues data of
                       None \<Rightarrow> Break []
                     | Some found \<Rightarrow>
                         if found = [] then Break []
                         else (case dataPaging data of
                                 None \<Rightarrow> Failed TypeError
                               | Some pg \<Rightarrow>
                                   (case pagingTotal pg of
                                      None \<Rightarrow> Next found
                                    | Some t \<Rightarrow>
                                        if t \<le> int (page * pageSize) then Break found
                                        else Next found)))))"

fun pushed :: "page_outcome \<Rightarrow> raw_issue list" where
  "pushed (Failed e) = []"
| "pushed (Break found) = found"
| "pushed (Next found) = found"

text \<open>
  The loop, with the requests sent so far. It has no bound of its own: \<open>None\<close> is a
  loop that never ends.
\<close>

partial_function (option) fetchLoop ::
  "(request \<Rightarrow> string + http_response) \<Rightarrow> (nat \<Rightarrow> request) \<Rightarrow> nat \<Rightarrow> raw_issue list \<Rightarrow>
   request list \<Rightarrow> ((js_error + raw_issue list) \<times> request list) option" where
  "fetchLoop fetchFn mk page allIssues sent =
     (case pageOutcome (fetchFn (mk page)) page of
        Failed e \<Rightarrow> Some (Inl e, sent @ [mk page])
      | Break found \<Rightarrow> Some (Inr (allIssues @ found), sent @ [mk page])
      | Next found \<Rightarrow> fetchLoop fetchFn mk (page + 1) (allIssues @ found) (sent @ [mk page]))"

text \<open>The request of a page, as \<open>fetchIssues\<close> builds it from its arguments.\<close>

definition extraFilter :: "host \<Rightarrow> string \<Rightarrow> string option \<Rightarrow> string option \<Rightarrow> string" where
  "extraFilter h workspaceRoot projectKey filePath' =
     (case filePath' of
        None \<Rightarrow> []
      | Some f \<Rightarrow>
          if f = [] then []
          else ''&componentKeys='' @ templ projectKey @ '':'' @ pathRelative h workspaceRoot f)"

definition issuesRequest ::
  "host \<Rightarrow> string \<Rightarrow> string option \<Rightarrow> string option \<Rightarrow> string option \<Rightarrow> string option \<Rightarrow> nat \<Rightarrow> request" where
  "issuesRequest h workspaceRoot server token projectKey filePath' =
     searchRequest server token projectKey (joinComma (configuredSeverities h))
       (extraFilter h workspaceRoot projectKey filePath')"

definition fetchIssues ::
  "host \<Rightarrow> string \<Rightarrow> string option \<Rightarrow> string option \<Rightarrow> string option \<Rightarrow> string option \<Rightarrow> world \<Rightarrow>
   ((js_error + raw_issue list) \<times> world) option" where
  "fetchIssues h workspaceRoot server token projectKey filePath' w =
     (case fetchLoop (fetch h) (issuesRequest h workspaceRoot server token projectKey filePath')
             1 [] (requests w) of
        None \<Rightarrow> None
      | Some (r, sent) \<Rightarrow> Some (r, w\<lparr>requests := sent\<rparr>))"

subsection \<open>Filter workspace\<close>

text \<open>\<open>filter\<close> and \<open>map\<close> with a callback that may throw.\<close>

fun filterE :: "('a \<Rightarrow> js_error + bool) \<Rightarrow> 'a list \<Rightarrow> js_error + 'a list" where
  "filterE f [] = Inr []"
| "filterE f (x # xs) =
     (case f x of
        Inl e \<Rightarrow> Inl e
      | Inr b \<Rightarrow> (case filterE f xs of Inl e \<Rightarrow> Inl e | Inr ys \<Rightarrow> Inr (if b then x # ys else ys)))"

fun mapE :: "('a \<Rightarrow> js_error + 'b) \<Rightarrow> 'a list \<Rightarrow> js_error + 'b list" where
  "mapE f [] = Inr []"
| "mapE f (x # xs) =
     (case f x of
        Inl e \<Rightarrow> Inl e
      | Inr y \<Rightarrow> (case mapE f xs of Inl e \<Rightarrow> Inl e | Inr ys \<Rightarrow> Inr (y # ys)))"

text \<open>
  \<open>path.join(workspaceRoot, issue.component.replace(`${projectKey}:`, "").replace(/^\/+/, ""))\<close>,
  the local path of a component identifier. A record without a component makes the
  property access throw.
\<close>

definition localPath :: "host \<Rightarrow> string option \<Rightarrow> string \<Rightarrow> string \<Rightarrow> string" where
  "localPath h projectKey workspaceRoot component =
     pathJoin h [workspaceRoot, stripLeadingSlashes (removeFirst (templ projectKey @ '':'') component)]"

definition absPathOf :: "host \<Rightarrow> string option \<Rightarrow> string \<Rightarrow> raw_issue \<Rightarrow> js_error + string" where
  "absPathOf h projectKey workspaceRoot issue =
     (case rawComponent issue of
        None \<Rightarrow> Inl TypeError
      | Some c \<Rightarrow> Inr (localPath h projectKey workspaceRoot c))"

definition keepIssue :: "host \<Rightarrow> string option \<Rightarrow> string \<Rightarrow> string option \<Rightarrow> raw_issue \<Rightarrow> js_error + bool" where
  "keepIssue h projectKey workspaceRoot currentFile issue =
     (case absPathOf h projectKey workspaceRoot issue of
        Inl e \<Rightarrow> Inl e
      | Inr absPath \<Rightarrow>
          if \<not> existsSync h absPath then Inr False
          else if truthy currentFile then Inr (Some absPath = currentFile)
          else Inr True)"

definition toSonarIssue :: "host \<Rightarrow> string option \<Rightarrow> string \<Rightarrow> raw_issue \<Rightarrow> js_error + SonarIssue" where
  "toSonarIssue h projectKey workspaceRoot issue =
     (case absPathOf h projectKey workspaceRoot issue of
        Inl e \<Rightarrow> Inl e
      | Inr absPath \<Rightarrow>
          Inr \<lparr>message = orString (rawMessage issue) ''Unknown'',
               rule = orString (rawRule issue) ''Unknown'',
               severity = orString (rawSeverity issue) ''INFO'',
               filePath = absPath,
               line = orNumber (case rawTextRange issue of None \<Rightarrow> None | Some tr \<Rightarrow> startLine tr) 1\<rparr>)"

definition filterByWorkspace ::
  "host \<Rightarrow> raw_issue list \<Rightarrow> string option \<Rightarrow> string \<Rightarrow> string option \<Rightarrow> js_error + SonarIssue list" where
  "filterByWorkspace h rawIssues projectKey workspaceRoot currentFile =
     (case filterE (keepIssue h projectKey workspaceRoot currentFile) rawIssues of
        Inl e \<Rightarrow> Inl e
      | Inr kept \<Rightarrow> mapE (toSonarIssue h projectKey workspaceRoot) kept)"

subsection \<open>ESLint local analysis\<close>

definition lintIssue :: "lint_result \<Rightarrow> lint_message \<Rightarrow> SonarIssue" where
  "lintIssue result msg =
     \<lparr>message = lintMessage msg,
      rule = orString (ruleId msg) ''ESLint'',
      severity = mapEslintSeverity (lintSeverity msg),
      filePath = resultFilePath result,
      line = lintLine msg\<rparr>"

definition runESLintAnalysis :: "host \<Rightarrow> string list \<Rightarrow> world \<Rightarrow> (string + SonarIssue list) \<times> world" where
  "runESLintAnalysis h files w =
     (case lintFiles h files of
        Inl m \<Rightarrow> (Inl m, w\<lparr>lintRuns := lintRuns w @ [files]\<rparr>)
      | Inr results \<Rightarrow>
          (Inr (concat (map (\<lambda>result. map (lintIssue result) (messages result)) results)),
           w\<lparr>lintRuns := lintRuns w @ [files]\<rparr>))"

subsection \<open>Show diagnostics\<close>

definition mkDiagnostic :: "string \<Rightarrow> SonarIssue \<Rightarrow> diagnostic" where
  "mkDiagnostic source issue =
     \<lparr>diagRange = \<lparr>rangeStartLine = line issue - 1, rangeStartCharacter = 0,
                   rangeEndLine = line issue - 1, rangeEndCharacter = 100\<rparr>,
      diagMessage = prefixLabel (mapSeverity (severity issue)) @ '': '' @ message issue @
                    '' ('' @ rule issue @ '')'',
      diagSeverity = vscodeSeverity (mapSeverity (severity issue)),
      diagSource = source\<rparr>"

text \<open>\<open>diagnosticCollection.set(uri, [...(diagnosticCollection.get(uri) || []), diag])\<close>.\<close>

definition addDiagnostic :: "string \<Rightarrow> (string \<rightharpoonup> diagnostic list) \<Rightarrow> SonarIssue \<Rightarrow> (string \<rightharpoonup> diagnostic list)" where
  "addDiagnostic source dc issue =
     dc(filePath issue \<mapsto>
        (case dc (filePath issue) of None \<Rightarrow> [] | Some ds \<Rightarrow> ds) @ [mkDiagnostic source issue])"

definition showSeparatedDiagnostics :: "SonarIssue list \<Rightarrow> SonarIssue list \<Rightarrow> world \<Rightarrow> world" where
  "showSeparatedDiagnostics sonarIssues localIssues w =
     w\<lparr>diagnosticCollection :=
         foldl (addDiagnostic ''ESLint'')
           (foldl (addDiagnostic ''SonarQube'') Map.empty sonarIssues) localIssues\<rparr>"

subsection \<open>The workspace search\<close>

text \<open>
  \<open>vscode.workspace.findFiles(include, exclude)\<close> gives the files of the workspace
  whose relative path matches the glob pattern \<open>include\<close> and not the glob pattern
  \<open>exclude\<close>. The matcher below has the constructs of the editor's glob patterns
  that the two patterns of \<open>refreshAllIssues\<close> use: \<open>*\<close> for any characters
  within a path segment, \<open>**\<close> for any number of segments, and one group
  \<open>{a,b}\<close> of alternatives.
\<close>

text \<open>The alternatives of a group, \<open>"a,b,c"\<close>, and a pattern with its first group expanded.\<close>

fun splitComma :: "string \<Rightarrow> string list" where
  "splitComma [] = [[]]"
| "splitComma (c # cs) =
     (if c = CHR '','' then [] # splitComma cs
      else (case splitComma cs of [] \<Rightarrow> [[c]] | x # xs \<Rightarrow> (c # x) # xs))"

definition expandBraces :: "string \<Rightarrow> string list" where
  "expandBraces p =
     (let pre = takeWhile (\<lambda>c. c \<noteq> CHR ''{'') p;
          rest = dropWhile (\<lambda>c. c \<noteq> CHR ''{'') p
      in if rest = [] then [p]
         else (let body = takeWhile (\<lambda>c. c \<noteq> CHR ''}'') (tl rest);
                   post = dropWhile (\<lambda>c. c \<noteq> CHR ''}'') (tl rest)
               in if post = [] then [p]
                  else map (\<lambda>alt. pre @ alt @ tl post) (splitComma body)))"

text \<open>
  What may follow a \<open>*\<close>, which stands for any characters of one segment: the rests
  of the path up to the next slash. What may follow a \<open>**/\<close>, which stands for any
  number of whole segments: the path, and its rests after each slash.
\<close>

fun starTails :: "string \<Rightarrow> string list" where
  "starTails [] = [[]]"
| "starTails (c # cs) = (c # cs) # (if c = CHR ''/'' then [] else starTails cs)"

fun afterSlashes :: "string \<Rightarrow> string list" where
  "afterSlashes [] = []"
| "afterSlashes (c # cs) = (if c = CHR ''/'' then [cs] else []) @ afterSlashes cs"

definition segmentStarts :: "string \<Rightarrow> string list" where
  "segmentStarts s = s # afterSlashes s"

text \<open>A pattern without groups against a path: \<open>**/\<close>, a final \<open>**\<close>, \<open>*\<close>, or a literal character.\<close>

function globSimple :: "string \<Rightarrow> string \<Rightarrow> bool" where
  "globSimple [] s = (s = [])"
| "globSimple (p # ps) s =
     (if p = CHR ''*'' \<and> take 2 ps = ''*/'' then list_ex (\<lambda>t. globSimple (drop 2 ps) t) (segmentStarts s)
      else if p = CHR ''*'' \<and> ps = ''*'' then True
      else if p = CHR ''*'' then list_ex (\<lambda>t. globSimple ps t) (starTails s)
      else (case s of [] \<Rightarrow> False | c # cs \<Rightarrow> c = p \<and> globSimple ps cs))"
  by pat_completeness auto
termination
  by (relation "measure (\<lambda>(p, s). length p)") auto

definition glob :: "string \<Rightarrow> string \<Rightarrow> bool" where
  "glob p s = list_ex (\<lambda>q. globSimple q s) (expandBraces p)"

text \<open>The search: it rejects, or it gives the \<open>fsPath\<close> of every file that matches.\<close>

definition findFiles :: "host \<Rightarrow> string \<Rightarrow> string \<Rightarrow> js_error + string list" where
  "findFiles h include exclude =
     (case searchFailure h of
        Some m \<Rightarrow> Inl (Thrown m)
      | None \<Rightarrow>
          Inr (map snd (filter (\<lambda>f. glob include (fst f) \<and> \<not> glob exclude (fst f))
                          (workspaceFiles h))))"

subsection \<open>Fetch / Refresh\<close>

text \<open>The \<open>catch\<close> of \<open>refreshAllIssues\<close>: the error goes to the console, the result is empty.\<close>

definition caught :: "js_error \<Rightarrow> world \<Rightarrow> SonarIssue list \<times> world" where
  "caught e w = ([], w\<lparr>consoleErrors := consoleErrors w @ [e]\<rparr>)"

text \<open>
  The local branch. The files: the current file alone in a file mode with a current
  file, and otherwise
  \<open>await findFiles("**/*.{js,ts,jsx,tsx}", "**/node_modules/**")\<close>, whose rejection
  is not caught here. Then the \<open>try\<close> around the lint run (\<open>Inl\<close> of
  \<open>runESLintAnalysis\<close> carries the message of the error thrown).
\<close>

definition filesToAnalyze :: "host \<Rightarrow> Mode \<Rightarrow> js_error + string list" where
  "filesToAnalyze h mode =
     (case activeFile h of
        None \<Rightarrow> findFiles h ''**/*.{js,ts,jsx,tsx}'' ''**/node_modules/**''
      | Some currentFile \<Rightarrow>
          if isFileMode mode \<and> currentFile \<noteq> [] then Inr [currentFile]
          else findFiles h ''**/*.{js,ts,jsx,tsx}'' ''**/node_modules/**'')"

definition analyzeLocal :: "host \<Rightarrow> Mode \<Rightarrow> world \<Rightarrow> (js_error + SonarIssue list) \<times> world" where
  "analyzeLocal h mode w =
     (if isNewMode mode \<or> modeName mode = ''overall-all'' then
        (case filesToAnalyze h mode of
           Inl e \<Rightarrow> (Inl e, w)
         | Inr files \<Rightarrow>
             (case runESLintAnalysis h files w of
                (Inl errMessage, w1) \<Rightarrow>
                  (Inr [], w1\<lparr>errorMessages := errorMessages w1 @ [''ESLint failed: '' @ errMessage],
                              consoleErrors := consoleErrors w1 @ [Thrown errMessage]\<rparr>)
              | (Inr localIssues, w1) \<Rightarrow> (Inr localIssues, w1)))
      else (Inr [], w))"

text \<open>\<open>issues.filter(issue => selectedSeverities.includes(issue.severity))\<close>.\<close>

definition filterBySeverity :: "string list \<Rightarrow> SonarIssue list \<Rightarrow> SonarIssue list" where
  "filterBySeverity selected issues = filter (\<lambda>issue. severity issue \<in> set selected) issues"

text \<open>
  The end of a cycle: both lists are filtered, published as diagnostics and
  concatenated. (The provider that \<open>refreshAllIssues\<close> creates here is a fresh object
  with no view and no listener, dropped on return; the visible provider is set by the
  caller, see \<open>refreshIssuesCommand\<close>. The status bar text is not modelled.)
\<close>

definition publishIssues :: "host \<Rightarrow> SonarIssue list \<Rightarrow> SonarIssue list \<Rightarrow> world \<Rightarrow> SonarIssue list \<times> world" where
  "publishIssues h sonarIssues localIssues w =
     (let filteredSonarIssues = filterBySeverity (selectedSeverities h) sonarIssues;
          filteredLocalIssues = filterBySeverity (selectedSeverities h) localIssues
      in (filteredSonarIssues @ filteredLocalIssues,
          showSeparatedDiagnostics filteredSonarIssues filteredLocalIssues w))"

definition finishRefresh :: "host \<Rightarrow> Mode \<Rightarrow> SonarIssue list \<Rightarrow> world \<Rightarrow> SonarIssue list \<times> world" where
  "finishRefresh h mode sonarIssues w =
     (case analyzeLocal h mode w of
        (Inl e, w1) \<Rightarrow> caught e w1
      | (Inr localIssues, w1) \<Rightarrow> publishIssues h sonarIssues localIssues w1)"

text \<open>
  The remote branch: \<open>sonarIssues\<close> stays empty in the new-code modes; otherwise the
  issues are fetched and reconciled, for the current file alone in a file mode.
\<close>

definition remoteBranch ::
  "host \<Rightarrow> Mode \<Rightarrow> string \<Rightarrow> sonar_config \<Rightarrow> world \<Rightarrow> ((js_error + SonarIssue list) \<times> world) option" where
  "remoteBranch h mode workspaceRoot config w =
     (if \<not> isNewMode mode then
        (case fetchIssues h workspaceRoot (cfgServer config) (cfgToken config) (cfgProjectKey config)
                (if isFileMode mode then activeFile h else None) w of
           None \<Rightarrow> None
         | Some (Inl e, w1) \<Rightarrow> Some (Inl e, w1)
         | Some (Inr apiIssues, w1) \<Rightarrow>
             Some (filterByWorkspace h apiIssues (cfgProjectKey config) workspaceRoot
                     (if isFileMode mode then activeFile h else None), w1))
      else Some (Inr [], w))"

definition configPath :: "host \<Rightarrow> string \<Rightarrow> string" where
  "configPath h workspaceRoot = pathJoin h [workspaceRoot, ''.vscode'', ''sonar-config.json'']"

definition refreshAllIssues :: "host \<Rightarrow> Mode \<Rightarrow> world \<Rightarrow> (SonarIssue list \<times> world) option" where
  "refreshAllIssues h mode w =
     (case workspaceFolders h of
        None \<Rightarrow> Some ([], w)
      | Some [] \<Rightarrow> Some (caught TypeError w)
      | Some (workspaceRoot # others) \<Rightarrow>
          if \<not> existsSync h (configPath h workspaceRoot)
          then Some ([], w\<lparr>warningMessages := warningMessages w @ [''Sonar config not found'']\<rparr>)
          else (case readConfig h (configPath h workspaceRoot) of
                  Inl m \<Rightarrow> Some (caught (Thrown m) w)
                | Inr config \<Rightarrow>
                    (case remoteBranch h mode workspaceRoot config w of
                       None \<Rightarrow> None
                     | Some (Inl e, w1) \<Rightarrow> Some (caught e w1)
                     | Some (Inr sonarIssues, w1) \<Rightarrow> Some (finishRefresh h mode sonarIssues w1))))"

text \<open>
  What every caller does with a refresh (the refresh command, the filter command, the
  save and editor-change handlers, the initial load):
  \<open>const issues = await refreshAllIssues(currentMode); provider.setIssues(issues)\<close>.
\<close>

definition refreshIssuesCommand ::
  "host \<Rightarrow> Mode \<Rightarrow> world \<times> SonarIssuesProvider \<Rightarrow> (world \<times> SonarIssuesProvider) option" where
  "refreshIssuesCommand h mode st =
     (case refreshAllIssues h mode (fst st) of
        None \<Rightarrow> None
      | Some (found, w1) \<Rightarrow> Some (w1, setIssues found (snd st)))"

subsection \<open>Example inputs\<close>

definition exampleIssueA :: SonarIssue where
  "exampleIssueA =
     \<lparr>message = ''m1'', rule = ''r1'', severity = ''MAJOR'', filePath = ''/ws/a.ts'', line = 3\<rparr>"

definition exampleIssueB :: SonarIssue where
  "exampleIssueB =
     \<lparr>message = ''m2'', rule = ''r2'', severity = ''INFO'', filePath = ''/ws/b.ts'', line = 7\<rparr>"

text \<open>A provider with its tree view attached, as \<open>activate\<close> sets it up.\<close>

definition exampleProvider :: SonarIssuesProvider where
  "exampleProvider = setTreeView \<lparr>tvMessage = None\<rparr> newProvider"

text \<open>A \<open>path.join\<close> that puts a slash between the segments, enough for the examples.\<close>

fun joinSlash :: "string list \<Rightarrow> string" where
  "joinSlash [] = ''.''"
| "joinSlash [x] = x"
| "joinSlash (x # y # ys) = x @ ''/'' @ joinSlash (y # ys)"

text \<open>Two records of the server: one for a file of the workspace, one for a file that is not there.\<close>

definition exampleRawA :: raw_issue where
  "exampleRawA =
     \<lparr>rawComponent = Some ''proj:a.ts'', rawMessage = Some ''Remove this unused import'',
      rawRule = Some ''typescript:S1128'', rawSeverity = Some ''MAJOR'',
      rawTextRange = Some \<lparr>startLine = Some 12\<rparr>\<rparr>"

definition exampleRawB :: raw_issue where
  "exampleRawB =
     \<lparr>rawComponent = Some ''proj:b.ts'', rawMessage = None, rawRule = None, rawSeverity = None,
      rawTextRange = None\<rparr>"

text \<open>A server with one page of two records; a lint engine with one warning.\<close>

definition exampleFetch :: "request \<Rightarrow> string + http_response" where
  "exampleFetch rq =
     (if reqPage rq = 1
      then Inr \<lparr>ok = True,
                json = Inr \<lparr>dataIssues = Some [exampleRawA, exampleRawB],
                            dataPaging = Some \<lparr>pagingTotal = Some 2\<rparr>\<rparr>\<rparr>
      else Inr \<lparr>ok = False, json = Inl ''no body''\<rparr>)"

definition exampleLint :: "string list \<Rightarrow> string + lint_result list" where
  "exampleLint files =
     Inr [\<lparr>resultFilePath = ''/ws/a.ts'',
           messages = [\<lparr>lintMessage = ''x is defined but never used'',
                        ruleId = Some ''no-unused-vars'', lintSeverity = Num 1, lintLine = 4\<rparr>]\<rparr>]"

definition exampleHost :: host where
  "exampleHost =
     \<lparr>workspaceFolders = Some [''/ws''],
      activeFile = Some ''/ws/a.ts'',
      existsSync = (\<lambda>p. p = ''/ws/.vscode/sonar-config.json'' \<or> p = ''/ws/a.ts''),
      readConfig = (\<lambda>p. Inr \<lparr>cfgServer = Some ''http://sonar.local'', cfgToken = Some ''t0k'',
                               cfgProjectKey = Some ''proj''\<rparr>),
      pathJoin = joinSlash,
      pathRelative = (\<lambda>from to. drop (Suc (length from)) to),
      configuredSeverities = [''MAJOR''],
      selectedSeverities = [''MAJOR''],
      fetch = exampleFetch,
      workspaceFiles =
        [(''a.ts'', ''/ws/a.ts''), (''lib/util.js'', ''/ws/lib/util.js''),
         (''node_modules/dep/index.js'', ''/ws/node_modules/dep/index.js''),
         (''README.md'', ''/ws/README.md'')],
      searchFailure = None,
      lintFiles = exampleLint\<rparr>"

definition exampleWorld :: world where
  "exampleWorld =
     \<lparr>warningMessages = [], errorMessages = [], consoleErrors = [], requests = [], lintRuns = [],
      diagnosticCollection = Map.empty\<rparr>"

text \<open>A server that reports 1200 records: pages of 500, 500 and 200.\<close>

definition pagedFetch :: "request \<Rightarrow> string + http_response" where
  "pagedFetch rq =
     (if reqPage rq = 1 \<or> reqPage rq = 2
      then Inr \<lparr>ok = True,
                json = Inr \<lparr>dataIssues = Some (replicate 500 exampleRawA),
                            dataPaging = Some \<lparr>pagingTotal = Some 1200\<rparr>\<rparr>\<rparr>
      else if reqPage rq = 3
      then Inr \<lparr>ok = True,
                json = Inr \<lparr>dataIssues = Some (replicate 200 exampleRawA),
                            dataPaging = Some \<lparr>pagingTotal = Some 1200\<rparr>\<rparr>\<rparr>
      else Inr \<lparr>ok = True,
                json = Inr \<lparr>dataIssues = Some [],
                            dataPaging = Some \<lparr>pagingTotal = Some 1200\<rparr>\<rparr>\<rparr>)"

definition pagingHost :: host where
  "pagingHost = exampleHost\<lparr>fetch := pagedFetch\<rparr>"


text \<open>
  Variants of the example host: a server that cannot be reached, a lint engine that
  fails, a workspace search that rejects, and a configuration file without a token.
\<close>

definition offlineHost :: host where
  "offlineHost = exampleHost\<lparr>fetch := (\<lambda>rq. Inl ''connect ECONNREFUSED'')\<rparr>"

definition brokenLintHost :: host where
  "brokenLintHost = exampleHost\<lparr>lintFiles := (\<lambda>files. Inl ''Failed to load parser'')\<rparr>"

definition brokenSearchHost :: host where
  "brokenSearchHost = exampleHost\<lparr>searchFailure := Some ''search cancelled''\<rparr>"

definition incompleteConfigHost :: host where
  "incompleteConfigHost =
     exampleHost\<lparr>readConfig := (\<lambda>p. Inr \<lparr>cfgServer = Some ''http://sonar.local'', cfgToken = None,
                                            cfgProjectKey = Some ''proj''\<rparr>)\<rparr>"

text \<open>The issues that the example server and the example lint engine give rise to.\<close>

definition exampleSonarIssue :: SonarIssue where
  "exampleSonarIssue =
     \<lparr>message = ''Remove this unused import'', rule = ''typescript:S1128'', severity = ''MAJOR'',
      filePath = ''/ws/a.ts'', line = 12\<rparr>"

definition exampleLintIssue :: SonarIssue where
  "exampleLintIssue =
     \<lparr>message = ''x is defined but never used'', rule = ''no-unused-vars'', severity = ''MAJOR'',
      filePath = ''/ws/a.ts'', line = 4\<rparr>"

section \<open>Properties\<close>

subsection \<open>Modes\<close>

lemma isFileMode_cases: "isFileMode mode = (mode = OverallFile \<or> mode = NewFile)"
  by (cases mode) (simp_all add: isFileMode_def suffix_to_prefix)

lemma isNewMode_cases: "isNewMode mode = (mode = NewAll \<or> mode = NewFile)"
  by (cases mode) (simp_all add: isNewMode_def)

lemma overall_all_name: "(modeName mode = ''overall-all'') = (mode = OverallAll)"
  by (cases mode) simp_all

subsection \<open>The severity mapper\<close>

text \<open>
  Claim C5. \<open>mapEslintSeverity\<close> gives a label for every input: the native levels
  \<open>2\<close> and \<open>"error"\<close> give \<open>CRITICAL\<close>, \<open>1\<close> and \<open>"warn"\<close> give \<open>MAJOR\<close>,
  every other input gives \<open>INFO\<close>, and no input gives \<open>BLOCKER\<close> or \<open>MINOR\<close>.
\<close>

theorem mapEslintSeverity_total:
  "mapEslintSeverity (Num 2) = ''CRITICAL'' \<and>
   mapEslintSeverity (Str ''error'') = ''CRITICAL'' \<and>
   mapEslintSeverity (Num 1) = ''MAJOR'' \<and>
   mapEslintSeverity (Str ''warn'') = ''MAJOR'' \<and>
   (lvl \<notin> {Num 2, Str ''error'', Num 1, Str ''warn''} \<longrightarrow> mapEslintSeverity lvl = ''INFO'') \<and>
   mapEslintSeverity lvl \<in> {''CRITICAL'', ''MAJOR'', ''INFO''} \<and>
   mapEslintSeverity lvl \<noteq> ''BLOCKER'' \<and>
   mapEslintSeverity lvl \<noteq> ''MINOR''"
  by (simp add: mapEslintSeverity_def)

theorem mapEslintSeverity_total_witness:
  "mapEslintSeverity (Num 0) = ''INFO'' \<and> mapEslintSeverity (Str ''off'') = ''INFO'' \<and>
   mapEslintSeverity (Num 0) \<noteq> ''BLOCKER'' \<and> mapEslintSeverity (Num 0) \<noteq> ''MINOR''"
  using mapEslintSeverity_total [of "Num 0"] mapEslintSeverity_total [of "Str ''off''"]
  by simp

subsection \<open>The grouped store\<close>

lemma groupIssue_map_of:
  "map_of (groupIssue m i) =
     (map_of m)(filePath i \<mapsto> (case map_of m (filePath i) of None \<Rightarrow> [] | Some b \<Rightarrow> b) @ [i])"
  by (auto simp: groupIssue_def Let_def AList.update_conv' split: option.splits)

lemma groupIssue_keys:
  "map fst (groupIssue m i) =
     (if filePath i \<in> set (map fst m) then map fst m else map fst m @ [filePath i])"
  by (auto simp: groupIssue_def Let_def AList.update_keys AList.update_conv' map_of_eq_None_iff
      split: option.splits)

lemma foldl_groupIssue_map_of:
  "map_of (foldl groupIssue m xs) k =
     (if k \<in> filePath ` set xs \<or> map_of m k \<noteq> None
      then Some ((case map_of m k of None \<Rightarrow> [] | Some b \<Rightarrow> b) @ filter (\<lambda>i. filePath i = k) xs)
      else None)"
proof (induction xs arbitrary: m)
  case Nil
  then show ?case by (auto split: option.splits)
next
  case (Cons x xs)
  show ?case
    by (simp add: Cons.IH groupIssue_map_of split: option.splits)
qed

lemma foldl_groupIssue_distinct:
  "distinct (map fst m) \<Longrightarrow> distinct (map fst (foldl groupIssue m xs))"
  by (induction xs arbitrary: m) (simp_all add: groupIssue_keys)

lemma setIssues_issuesByFile: "issuesByFile (setIssues found p) = foldl groupIssue [] found"
  by (simp add: setIssues_def fire_def Let_def split: option.splits)

lemma setIssues_treeView:
  "treeView (setIssues found p) =
     map_option (\<lambda>tv. tv\<lparr>tvMessage := (if found = [] then Some noIssuesMessage else None)\<rparr>)
       (treeView p)"
  by (simp add: setIssues_def fire_def Let_def split: option.splits)

lemma setIssues_fired:
  "fired (setIssues found p) = fired p @
     [\<lparr>seenIssuesByFile = issuesByFile (setIssues found p),
       seenMessage = map_option tvMessage (treeView (setIssues found p))\<rparr>]"
  by (simp add: setIssues_def fire_def Let_def split: option.splits)

text \<open>
  Claim C7. For every input list and every earlier state of the provider, after
  \<open>setIssues\<close> the mapping has an entry exactly for the files of the new input (each
  with that file's issues, in input order), its keys are distinct, and it is the mapping
  that a fresh provider would get, so nothing of the earlier grouping survives. The
  attached view shows the fixed "no issues" message when the input is empty and no
  message otherwise. One change notification is fired, last: its listener sees the new
  mapping and the new message.
\<close>

theorem setIssues_replaces:
  "map_of (issuesByFile (setIssues found p)) k =
     (if k \<in> filePath ` set found then Some (filter (\<lambda>i. filePath i = k) found) else None) \<and>
   distinct (map fst (issuesByFile (setIssues found p))) \<and>
   issuesByFile (setIssues found p) = issuesByFile (setIssues found newProvider) \<and>
   map_option tvMessage (treeView (setIssues found p)) =
     map_option (\<lambda>tv. if found = [] then Some noIssuesMessage else None) (treeView p) \<and>
   fired (setIssues found p) = fired p @
     [\<lparr>seenIssuesByFile = issuesByFile (setIssues found p),
       seenMessage = map_option tvMessage (treeView (setIssues found p))\<rparr>]"
proof -
  have a: "map_of (issuesByFile (setIssues found p)) k =
     (if k \<in> filePath ` set found then Some (filter (\<lambda>i. filePath i = k) found) else None)"
    by (simp add: setIssues_issuesByFile foldl_groupIssue_map_of)
  have b: "distinct (map fst (issuesByFile (setIssues found p)))"
    by (simp add: setIssues_issuesByFile foldl_groupIssue_distinct)
  have c: "issuesByFile (setIssues found p) = issuesByFile (setIssues found newProvider)"
    by (simp add: setIssues_issuesByFile)
  have d: "map_option tvMessage (treeView (setIssues found p)) =
     map_option (\<lambda>tv. if found = [] then Some noIssuesMessage else None) (treeView p)"
    by (simp add: setIssues_treeView option.map_comp comp_def)
  from a b c d setIssues_fired show ?thesis by blast
qed

theorem setIssues_replaces_witness:
  "map_of (issuesByFile (setIssues [exampleIssueB] (setIssues [exampleIssueA] exampleProvider)))
     ''/ws/a.ts'' = None \<and>
   map_of (issuesByFile (setIssues [exampleIssueB] (setIssues [exampleIssueA] exampleProvider)))
     ''/ws/b.ts'' = Some [exampleIssueB] \<and>
   map_option tvMessage (treeView (setIssues [] exampleProvider)) = Some (Some noIssuesMessage) \<and>
   map_option tvMessage (treeView (setIssues [exampleIssueA] (setIssues [] exampleProvider))) =
     Some None \<and>
   length (fired (setIssues [exampleIssueA] (setIssues [] exampleProvider))) = 2"
  using
    setIssues_replaces [of "[exampleIssueB]" "setIssues [exampleIssueA] exampleProvider" "''/ws/a.ts''"]
    setIssues_replaces [of "[exampleIssueB]" "setIssues [exampleIssueA] exampleProvider" "''/ws/b.ts''"]
    setIssues_replaces [of "[]" exampleProvider]
    setIssues_replaces [of "[exampleIssueA]" "setIssues [] exampleProvider"]
  by (simp add: setIssues_issuesByFile setIssues_treeView setIssues_fired groupIssue_def
      exampleIssueA_def exampleIssueB_def exampleProvider_def setTreeView_def newProvider_def)

text \<open>
  Claim C10. \<open>getChildren\<close> has a result in every state of the store: with no
  parent, the file keys in lexicographic order, each once; with a file key that has no
  entry, the empty sequence; with an issue node, the empty sequence. (The file keys
  that the tree hands back are keys of the store, the \<open>filePath\<close>s of the issues.
  The empty string, which is no file's path, is taken by the test \<open>!element\<close> for
  "no parent".)
\<close>

theorem getChildren_total:
  "(\<exists>ks. getChildren p None = map FileKey ks \<and> sorted ks \<and>
         set ks = fst ` set (issuesByFile p) \<and> length ks = length (issuesByFile p)) \<and>
   (k \<noteq> [] \<and> map_of (issuesByFile p) k = None \<longrightarrow> getChildren p (Some (FileKey k)) = []) \<and>
   getChildren p (Some (FileKey [])) = getChildren p None \<and>
   getChildren p (Some (IssueNode i)) = []"
proof -
  have "getChildren p None = map FileKey (sort (map fst (issuesByFile p)))"
    by (simp add: getChildren_def)
  then have "\<exists>ks. getChildren p None = map FileKey ks \<and> sorted ks \<and>
         set ks = fst ` set (issuesByFile p) \<and> length ks = length (issuesByFile p)"
    by (intro exI [of _ "sort (map fst (issuesByFile p))"]) simp
  then show ?thesis
    by (simp add: getChildren_def)
qed

lemma example_store:
  "issuesByFile (setIssues [exampleIssueB, exampleIssueA] newProvider) =
     [(''/ws/b.ts'', [exampleIssueB]), (''/ws/a.ts'', [exampleIssueA])]"
  by (simp add: setIssues_issuesByFile groupIssue_def exampleIssueA_def exampleIssueB_def)

theorem getChildren_total_witness:
  "getChildren (setIssues [exampleIssueB, exampleIssueA] newProvider)
     (Some (FileKey ''/ws/c.ts'')) = [] \<and>
   getChildren (setIssues [exampleIssueB, exampleIssueA] newProvider)
     (Some (IssueNode exampleIssueA)) = [] \<and>
   getChildren (setIssues [exampleIssueB, exampleIssueA] newProvider) None =
     [FileKey ''/ws/a.ts'', FileKey ''/ws/b.ts'']"
proof -
  have "map_of (issuesByFile (setIssues [exampleIssueB, exampleIssueA] newProvider)) ''/ws/c.ts'' = None"
    by (simp add: example_store)
  moreover have "getChildren (setIssues [exampleIssueB, exampleIssueA] newProvider) None =
     [FileKey ''/ws/a.ts'', FileKey ''/ws/b.ts'']"
    by (simp add: getChildren_def example_store)
  ultimately show ?thesis
    using getChildren_total [of "setIssues [exampleIssueB, exampleIssueA] newProvider"
        "''/ws/c.ts''" exampleIssueA]
    by simp
qed

subsection \<open>The remote fetch\<close>

lemma fetchLoop_run:
  assumes "page \<le> n"
    and "\<forall>q. page \<le> q \<and> q < n \<longrightarrow> (\<exists>xs. pageOutcome (f (mk q)) q = Next xs)"
  shows "fetchLoop f mk page acc sent =
     (case pageOutcome (f (mk n)) n of
        Failed e \<Rightarrow> Some (Inl e, sent @ map mk [page..<Suc n])
      | Break ys \<Rightarrow>
          Some (Inr (acc @ concat (map (\<lambda>q. pushed (pageOutcome (f (mk q)) q)) [page..<Suc n])),
                sent @ map mk [page..<Suc n])
      | Next ys \<Rightarrow>
          fetchLoop f mk (Suc n)
            (acc @ concat (map (\<lambda>q. pushed (pageOutcome (f (mk q)) q)) [page..<Suc n]))
            (sent @ map mk [page..<Suc n]))"
  using assms
proof (induction "n - page" arbitrary: page acc sent)
  case 0
  then have "page = n" by simp
  then show ?case
    by (subst fetchLoop.simps) (simp split: page_outcome.splits)
next
  case (Suc d)
  then have lt: "page < n" by simp
  with Suc.prems obtain xs where xs: "pageOutcome (f (mk page)) page = Next xs" by auto
  have step: "fetchLoop f mk page acc sent = fetchLoop f mk (Suc page) (acc @ xs) (sent @ [mk page])"
    by (subst fetchLoop.simps) (simp add: xs)
  have ih: "fetchLoop f mk (Suc page) (acc @ xs) (sent @ [mk page]) =
     (case pageOutcome (f (mk n)) n of
        Failed e \<Rightarrow> Some (Inl e, (sent @ [mk page]) @ map mk [Suc page..<Suc n])
      | Break ys \<Rightarrow>
          Some (Inr ((acc @ xs) @ concat (map (\<lambda>q. pushed (pageOutcome (f (mk q)) q)) [Suc page..<Suc n])),
                (sent @ [mk page]) @ map mk [Suc page..<Suc n])
      | Next ys \<Rightarrow>
          fetchLoop f mk (Suc n)
            ((acc @ xs) @ concat (map (\<lambda>q. pushed (pageOutcome (f (mk q)) q)) [Suc page..<Suc n]))
            ((sent @ [mk page]) @ map mk [Suc page..<Suc n]))"
    using Suc.hyps(2) Suc.prems lt by (intro Suc.hyps(1)) auto
  have unroll: "[page..<Suc n] = page # [Suc page..<Suc n]"
    using lt by (simp add: upt_conv_Cons)
  show ?case
    by (simp only: step ih unroll list.map concat.simps xs pushed.simps append_assoc append_Cons append_Nil)
qed

lemma fetchIssues_run:
  assumes "1 \<le> n"
    and "\<forall>q. 1 \<le> q \<and> q < n \<longrightarrow>
           (\<exists>xs. pageOutcome (fetch h (issuesRequest h root sv tk pk fp q)) q = Next xs)"
    and "pageOutcome (fetch h (issuesRequest h root sv tk pk fp n)) n = Break ys"
  shows "fetchIssues h root sv tk pk fp w =
     Some (Inr (concat (map (\<lambda>q. pushed (pageOutcome (fetch h (issuesRequest h root sv tk pk fp q)) q))
                  [1..<Suc n])),
           w\<lparr>requests := requests w @ map (issuesRequest h root sv tk pk fp) [1..<Suc n]\<rparr>)"
  using fetchLoop_run [of 1 n "fetch h" "issuesRequest h root sv tk pk fp" "[]" "requests w"] assms
  by (simp add: fetchIssues_def)

lemma fetchIssues_fail:
  assumes "1 \<le> n"
    and "\<forall>q. 1 \<le> q \<and> q < n \<longrightarrow>
           (\<exists>xs. pageOutcome (fetch h (issuesRequest h root sv tk pk fp q)) q = Next xs)"
    and "pageOutcome (fetch h (issuesRequest h root sv tk pk fp n)) n = Failed e"
  shows "fetchIssues h root sv tk pk fp w =
     Some (Inl e, w\<lparr>requests := requests w @ map (issuesRequest h root sv tk pk fp) [1..<Suc n]\<rparr>)"
  using fetchLoop_run [of 1 n "fetch h" "issuesRequest h root sv tk pk fp" "[]" "requests w"] assms
  by (simp add: fetchIssues_def)

lemma issuesRequest_page:
  "reqPage (issuesRequest h root sv tk pk fp q) = q \<and>
   reqPageSize (issuesRequest h root sv tk pk fp q) = 500"
  by (simp add: issuesRequest_def searchRequest_def pageSize_def)

lemma pageOutcome_not_ok: "\<not> ok res \<Longrightarrow> pageOutcome (Inr res) q = Break []"
  by (simp add: pageOutcome_def)

lemma pageOutcome_no_records:
  "ok res \<Longrightarrow> json res = Inr data \<Longrightarrow> dataIssues data = None \<or> dataIssues data = Some [] \<Longrightarrow>
   pageOutcome (Inr res) q = Break []"
  by (auto simp add: pageOutcome_def)

lemma pageOutcome_total:
  "ok res \<Longrightarrow> json res = Inr data \<Longrightarrow> dataIssues data = Some found \<Longrightarrow> found \<noteq> [] \<Longrightarrow>
   dataPaging data = Some pg \<Longrightarrow> pagingTotal pg = Some t \<Longrightarrow>
   pageOutcome (Inr res) q = (if t \<le> int (q * 500) then Break found else Next found)"
  by (simp add: pageOutcome_def pageSize_def)

lemma three_pages:
  assumes "\<forall>q\<in>{1, 2, 3}. \<exists>found. found \<noteq> [] \<and>
      fetch h (issuesRequest h root sv tk pk fp q) =
        Inr \<lparr>ok = True, json = Inr \<lparr>dataIssues = Some found,
                                     dataPaging = Some \<lparr>pagingTotal = Some 1200\<rparr>\<rparr>\<rparr>"
  shows "\<exists>found. fetchIssues h root sv tk pk fp w =
     Some (Inr found, w\<lparr>requests := requests w @
        [issuesRequest h root sv tk pk fp 1, issuesRequest h root sv tk pk fp 2,
         issuesRequest h root sv tk pk fp 3]\<rparr>)"
proof -
  let ?R = "issuesRequest h root sv tk pk fp"
  from assms obtain f1 f2 f3 where
    f1: "f1 \<noteq> []" "fetch h (?R 1) = Inr \<lparr>ok = True, json = Inr \<lparr>dataIssues = Some f1,
                                     dataPaging = Some \<lparr>pagingTotal = Some 1200\<rparr>\<rparr>\<rparr>" and
    f2: "f2 \<noteq> []" "fetch h (?R 2) = Inr \<lparr>ok = True, json = Inr \<lparr>dataIssues = Some f2,
                                     dataPaging = Some \<lparr>pagingTotal = Some 1200\<rparr>\<rparr>\<rparr>" and
    f3: "f3 \<noteq> []" "fetch h (?R 3) = Inr \<lparr>ok = True, json = Inr \<lparr>dataIssues = Some f3,
                                     dataPaging = Some \<lparr>pagingTotal = Some 1200\<rparr>\<rparr>\<rparr>"
    by auto
  have o1: "pageOutcome (fetch h (?R 1)) 1 = Next f1"
    using f1 by (simp add: pageOutcome_def pageSize_def)
  have o2: "pageOutcome (fetch h (?R 2)) 2 = Next f2"
    using f2 by (simp add: pageOutcome_def pageSize_def)
  have o3: "pageOutcome (fetch h (?R 3)) 3 = Break f3"
    using f3 by (simp add: pageOutcome_def pageSize_def)
  have cont: "\<forall>q. 1 \<le> q \<and> q < 3 \<longrightarrow> (\<exists>xs. pageOutcome (fetch h (?R q)) q = Next xs)"
  proof (intro allI impI)
    fix q :: nat
    assume "1 \<le> q \<and> q < 3"
    then have "q = 1 \<or> q = 2" by arith
    then show "\<exists>xs. pageOutcome (fetch h (?R q)) q = Next xs"
      using o1 o2 by auto
  qed
  have "[1..<Suc 3] = [1, 2, 3]" by (simp add: upt_rec)
  with fetchIssues_run [of 3 h root sv tk pk fp f3 w, OF _ cont o3] show ?thesis
    by simp
qed


text \<open>
  Claim C4. Every request of \<open>fetchIssues\<close> asks for page size 500 and the request
  of the \<open>q\<close>-th pass asks for page \<open>q\<close>. A pass ends the loop without an error,
  keeping what was accumulated, when the response is not a success or the page has no
  records, and, having pushed the page's records, when the reported total is at most
  \<open>500 * q\<close>. When the passes \<open>1 .. n - 1\<close> go on and pass \<open>n\<close> ends the loop, the
  fetch returns the records of the passes \<open>1 .. n\<close> and has sent exactly the requests
  of the pages \<open>1 .. n\<close>. In particular, with a reported total of 1200 and non-empty
  pages, exactly the pages 1, 2 and 3 are requested.
\<close>

theorem fetchIssues_pagination:
  "(reqPage (issuesRequest h root sv tk pk fp q) = q \<and>
    reqPageSize (issuesRequest h root sv tk pk fp q) = 500) \<and>
   (\<not> ok res \<longrightarrow> pageOutcome (Inr res) q = Break []) \<and>
   (ok res \<and> json res = Inr data \<and> (dataIssues data = None \<or> dataIssues data = Some []) \<longrightarrow>
      pageOutcome (Inr res) q = Break []) \<and>
   (ok res \<and> json res = Inr data \<and> dataIssues data = Some found \<and> found \<noteq> [] \<and>
    dataPaging data = Some pg \<and> pagingTotal pg = Some t \<longrightarrow>
      pageOutcome (Inr res) q = (if t \<le> int (q * 500) then Break found else Next found)) \<and>
   (1 \<le> n \<and>
    (\<forall>q. 1 \<le> q \<and> q < n \<longrightarrow>
       (\<exists>xs. pageOutcome (fetch h (issuesRequest h root sv tk pk fp q)) q = Next xs)) \<and>
    pageOutcome (fetch h (issuesRequest h root sv tk pk fp n)) n = Break ys \<longrightarrow>
      fetchIssues h root sv tk pk fp w =
        Some (Inr (concat (map (\<lambda>q. pushed (pageOutcome (fetch h (issuesRequest h root sv tk pk fp q)) q))
                     [1..<Suc n])),
              w\<lparr>requests := requests w @ map (issuesRequest h root sv tk pk fp) [1..<Suc n]\<rparr>)) \<and>
   ((\<forall>q\<in>{1, 2, 3}. \<exists>found. found \<noteq> [] \<and>
       fetch h (issuesRequest h root sv tk pk fp q) =
         Inr \<lparr>ok = True, json = Inr \<lparr>dataIssues = Some found,
                                      dataPaging = Some \<lparr>pagingTotal = Some 1200\<rparr>\<rparr>\<rparr>) \<longrightarrow>
      (\<exists>found. fetchIssues h root sv tk pk fp w =
         Some (Inr found, w\<lparr>requests := requests w @
           [issuesRequest h root sv tk pk fp 1, issuesRequest h root sv tk pk fp 2,
            issuesRequest h root sv tk pk fp 3]\<rparr>)))"
  using issuesRequest_page [of h root sv tk pk fp q]
    pageOutcome_not_ok [of res q]
    pageOutcome_no_records [of res data q]
    pageOutcome_total [of res data found pg t q]
    fetchIssues_run [of n h root sv tk pk fp ys w]
    three_pages [of h root sv tk pk fp w]
  by blast

theorem fetchIssues_pagination_witness:
  "(case fetchIssues pagingHost ''/ws'' (Some ''http://sonar.local'') (Some ''t0k'') (Some ''proj'')
           None exampleWorld of
      None \<Rightarrow> False
    | Some (Inl e, w1) \<Rightarrow> False
    | Some (Inr found, w1) \<Rightarrow>
        length found = 1200 \<and> map reqPage (requests w1) = [1, 2, 3] \<and>
        map reqPageSize (requests w1) = [500, 500, 500])"
proof -
  let ?R = "issuesRequest pagingHost ''/ws'' (Some ''http://sonar.local'') (Some ''t0k'') (Some ''proj'') None"
  have o: "pageOutcome (fetch pagingHost (?R q)) q =
      (if q = 1 \<or> q = 2 then Next (replicate 500 exampleRawA)
       else if q = 3 then Break (replicate 200 exampleRawA) else Break [])" for q
    by (simp add: pagingHost_def exampleHost_def pagedFetch_def issuesRequest_page pageOutcome_def pageSize_def)
  have cont: "\<forall>q. 1 \<le> q \<and> q < 3 \<longrightarrow> (\<exists>xs. pageOutcome (fetch pagingHost (?R q)) q = Next xs)"
  proof (intro allI impI)
    fix q :: nat
    assume "1 \<le> q \<and> q < 3"
    then have "q = 1 \<or> q = 2" by arith
    then show "\<exists>xs. pageOutcome (fetch pagingHost (?R q)) q = Next xs"
      by (auto simp: o)
  qed
  have last: "pageOutcome (fetch pagingHost (?R 3)) 3 = Break (replicate 200 exampleRawA)"
    by (simp add: o)
  have one: "1 \<le> (3::nat)" by simp
  have run: "fetchIssues pagingHost ''/ws'' (Some ''http://sonar.local'') (Some ''t0k'') (Some ''proj'')
           None exampleWorld =
        Some (Inr (concat (map (\<lambda>q. pushed (pageOutcome (fetch pagingHost (?R q)) q)) [1..<Suc 3])),
              exampleWorld\<lparr>requests := requests exampleWorld @ map ?R [1..<Suc 3]\<rparr>)"
    using fetchIssues_pagination [where h = pagingHost and root = "''/ws''"
        and sv = "Some ''http://sonar.local''" and tk = "Some ''t0k''" and pk = "Some ''proj''"
        and fp = None and n = 3 and ys = "replicate 200 exampleRawA" and w = exampleWorld]
      one cont last
    by blast
  have pages: "[1..<Suc 3] = [1, 2, 3]" by (simp add: upt_rec)
  show ?thesis
    unfolding run pages by (simp add: o issuesRequest_page exampleWorld_def)
qed

subsection \<open>The reconciler\<close>




lemma removeFirst_prefix: "removeFirst p (p @ rest) = rest"
proof (cases "p @ rest")
  case Nil
  then show ?thesis by simp
next
  case (Cons a list)
  have "prefix p (a # list)"
    by (simp flip: Cons)
  then have "removeFirst p (a # list) = drop (length p) (a # list)"
    by simp
  then show ?thesis
    by (simp flip: Cons)
qed

lemma localPath_prefixed:
  "localPath h pk root (templ pk @ '':'' @ rel) = pathJoin h [root, stripLeadingSlashes rel]"
  using removeFirst_prefix [of "templ pk @ '':''" rel] by (simp add: localPath_def)







subsection \<open>The workspace search\<close>

text \<open>
  What the matcher does on the two patterns of \<open>refreshAllIssues\<close>: the pattern
  \<open>**/*.{js,ts,jsx,tsx}\<close> matches the paths that end in one of the four
  extensions, and \<open>**/node_modules/**\<close> the paths with a segment
  \<open>node_modules\<close> that is not the last one.
\<close>

lemma starTails_iff: "t \<in> set (starTails s) \<longleftrightarrow> (\<exists>b. s = b @ t \<and> CHR ''/'' \<notin> set b)"
proof (induction s)
  case Nil
  then show ?case by auto
next
  case (Cons c cs)
  show ?case
  proof
    assume "t \<in> set (starTails (c # cs))"
    then consider "t = c # cs" | "c \<noteq> CHR ''/''" "t \<in> set (starTails cs)"
      by (auto split: if_splits)
    then show "\<exists>b. c # cs = b @ t \<and> CHR ''/'' \<notin> set b"
    proof cases
      case 1
      then have "c # cs = [] @ t \<and> CHR ''/'' \<notin> set []" by simp
      then show ?thesis by blast
    next
      case 2
      with Cons.IH obtain b where "cs = b @ t" "CHR ''/'' \<notin> set b" by auto
      with 2 have "c # cs = (c # b) @ t \<and> CHR ''/'' \<notin> set (c # b)" by simp
      then show ?thesis by blast
    qed
  next
    assume "\<exists>b. c # cs = b @ t \<and> CHR ''/'' \<notin> set b"
    then obtain b where b: "c # cs = b @ t" "CHR ''/'' \<notin> set b" by auto
    show "t \<in> set (starTails (c # cs))"
    proof (cases b)
      case Nil
      with b have "t = c # cs" by simp
      then show ?thesis by simp
    next
      case (Cons x xs)
      with b have "c = x" "cs = xs @ t" "x \<noteq> CHR ''/''" "CHR ''/'' \<notin> set xs" by auto
      with Cons.IH show ?thesis by auto
    qed
  qed
qed

lemma afterSlashes_iff:
  "t \<in> set (afterSlashes s) \<longleftrightarrow> (\<exists>pre. s = pre @ t \<and> pre \<noteq> [] \<and> last pre = CHR ''/'')"
proof (induction s)
  case Nil
  then show ?case by simp
next
  case (Cons c cs)
  show ?case
  proof
    assume "t \<in> set (afterSlashes (c # cs))"
    then consider "c = CHR ''/''" "t = cs" | "t \<in> set (afterSlashes cs)"
      by (auto split: if_splits)
    then show "\<exists>pre. c # cs = pre @ t \<and> pre \<noteq> [] \<and> last pre = CHR ''/''"
    proof cases
      case 1
      then have "c # cs = [c] @ t \<and> [c] \<noteq> [] \<and> last [c] = CHR ''/''" by simp
      then show ?thesis by blast
    next
      case 2
      with Cons.IH obtain pre where "cs = pre @ t" "pre \<noteq> []" "last pre = CHR ''/''" by auto
      then have "c # cs = (c # pre) @ t \<and> c # pre \<noteq> [] \<and> last (c # pre) = CHR ''/''" by simp
      then show ?thesis by blast
    qed
  next
    assume "\<exists>pre. c # cs = pre @ t \<and> pre \<noteq> [] \<and> last pre = CHR ''/''"
    then obtain pre where p: "c # cs = pre @ t" "pre \<noteq> []" "last pre = CHR ''/''" by auto
    then obtain x xs where x: "pre = x # xs" by (cases pre) auto
    show "t \<in> set (afterSlashes (c # cs))"
    proof (cases xs)
      case Nil
      with p x show ?thesis by simp
    next
      case (Cons y ys)
      with p x have "cs = xs @ t" "xs \<noteq> []" "last xs = CHR ''/''" by auto
      with Cons.IH have "t \<in> set (afterSlashes cs)" by blast
      then show ?thesis by simp
    qed
  qed
qed

lemma segmentStarts_iff:
  "t \<in> set (segmentStarts s) \<longleftrightarrow> (\<exists>pre. s = pre @ t \<and> (pre = [] \<or> last pre = CHR ''/''))"
  unfolding segmentStarts_def set_simps insert_iff afterSlashes_iff
  by (metis append_Nil)


lemma globSimple_literal: "CHR ''*'' \<notin> set lit \<Longrightarrow> globSimple lit s = (s = lit)"
proof (induction lit arbitrary: s)
  case Nil
  then show ?case by simp
next
  case (Cons x lit)
  then have "x \<noteq> CHR ''*''" and ih: "\<And>t. globSimple lit t = (t = lit)" by auto
  then show ?case
    by (cases s) auto
qed

lemma globSimple_literal_rest:
  "CHR ''*'' \<notin> set lit \<Longrightarrow> globSimple (lit @ ''**'') s = prefix lit s"
proof (induction lit arbitrary: s)
  case Nil
  then show ?case by simp
next
  case (Cons x lit)
  then have "x \<noteq> CHR ''*''" and ih: "\<And>t. globSimple (lit @ ''**'') t = prefix lit t" by auto
  then show ?case
    by (cases s) auto
qed

lemma globSimple_segments:
  "globSimple (''**/'' @ ps) s = list_ex (globSimple ps) (segmentStarts s)"
  by simp

lemma globSimple_star:
  "CHR ''*'' \<notin> set lit \<Longrightarrow>
   globSimple (CHR ''*'' # lit) s = list_ex (globSimple lit) (starTails s)"
proof -
  assume a: "CHR ''*'' \<notin> set lit"
  then have "lit \<noteq> ''*''" by auto
  moreover have "take 2 lit \<noteq> ''*/''"
  proof
    assume "take 2 lit = ''*/''"
    then have "CHR ''*'' \<in> set (take 2 lit)" by simp
    then have "CHR ''*'' \<in> set lit" by (rule in_set_takeD)
    with a show False by simp
  qed
  ultimately show ?thesis by simp
qed

lemma last_segment:
  "\<exists>pre b. a = pre @ b \<and> (pre = [] \<or> last pre = CHR ''/'') \<and> CHR ''/'' \<notin> set b"
proof (induction a rule: rev_induct)
  case Nil
  then show ?case by simp
next
  case (snoc x xs)
  show ?case
  proof (cases "x = CHR ''/''")
    case True
    then have "xs @ [x] = (xs @ [x]) @ [] \<and> last (xs @ [x]) = CHR ''/'' \<and> CHR ''/'' \<notin> set []"
      by simp
    then show ?thesis by blast
  next
    case False
    from snoc obtain pre b where
      "xs = pre @ b" "pre = [] \<or> last pre = CHR ''/''" "CHR ''/'' \<notin> set b" by auto
    with False have "xs @ [x] = pre @ (b @ [x]) \<and> (pre = [] \<or> last pre = CHR ''/'') \<and>
        CHR ''/'' \<notin> set (b @ [x])" by simp
    then show ?thesis by blast
  qed
qed

lemma globSimple_any_file:
  assumes "CHR ''*'' \<notin> set lit"
  shows "globSimple (''**/*'' @ lit) s = suffix lit s"
proof -
  have "globSimple (''**/*'' @ lit) s =
      (\<exists>t\<in>set (segmentStarts s). \<exists>u\<in>set (starTails t). u = lit)"
    using globSimple_segments [of "CHR ''*'' # lit" s] globSimple_star [OF assms]
      globSimple_literal [OF assms]
    by (simp add: list_ex_iff)
  also have "\<dots> = (\<exists>pre b. s = pre @ b @ lit \<and> (pre = [] \<or> last pre = CHR ''/'') \<and>
      CHR ''/'' \<notin> set b)"
    unfolding Bex_def segmentStarts_iff starTails_iff by blast
  also have "\<dots> = suffix lit s"
  proof
    assume "\<exists>pre b. s = pre @ b @ lit \<and> (pre = [] \<or> last pre = CHR ''/'') \<and> CHR ''/'' \<notin> set b"
    then obtain pre b where "s = (pre @ b) @ lit" by auto
    then show "suffix lit s" by (rule suffixI)
  next
    assume "suffix lit s"
    then obtain a where a: "s = a @ lit" by (auto simp: suffix_def)
    from last_segment [of a] obtain pre b where
      "a = pre @ b" "pre = [] \<or> last pre = CHR ''/''" "CHR ''/'' \<notin> set b" by auto
    with a have "s = pre @ b @ lit \<and> (pre = [] \<or> last pre = CHR ''/'') \<and> CHR ''/'' \<notin> set b"
      by simp
    then show "\<exists>pre b. s = pre @ b @ lit \<and> (pre = [] \<or> last pre = CHR ''/'') \<and>
      CHR ''/'' \<notin> set b" by blast
  qed
  finally show ?thesis .
qed

lemma glob_source_files:
  "glob ''**/*.{js,ts,jsx,tsx}'' s =
     (suffix ''.js'' s \<or> suffix ''.ts'' s \<or> suffix ''.jsx'' s \<or> suffix ''.tsx'' s)"
proof -
  have e: "expandBraces ''**/*.{js,ts,jsx,tsx}'' = [''**/*.js'', ''**/*.ts'', ''**/*.jsx'', ''**/*.tsx'']"
    by (simp add: expandBraces_def)
  have "globSimple ''**/*.js'' s = suffix ''.js'' s"
    "globSimple ''**/*.ts'' s = suffix ''.ts'' s"
    "globSimple ''**/*.jsx'' s = suffix ''.jsx'' s"
    "globSimple ''**/*.tsx'' s = suffix ''.tsx'' s"
    using globSimple_any_file [of "''.js''" s] globSimple_any_file [of "''.ts''" s]
      globSimple_any_file [of "''.jsx''" s] globSimple_any_file [of "''.tsx''" s]
    by simp_all
  then show ?thesis
    unfolding glob_def e by simp
qed

lemma glob_node_modules_exec:
  "glob ''**/node_modules/**'' s = list_ex (prefix ''node_modules/'') (segmentStarts s)"
proof -
  have e: "expandBraces ''**/node_modules/**'' = [''**/node_modules/**'']"
    by (simp add: expandBraces_def)
  have "globSimple (''**/'' @ (''node_modules/'' @ ''**'')) s =
      list_ex (globSimple (''node_modules/'' @ ''**'')) (segmentStarts s)"
    by (rule globSimple_segments)
  also have "globSimple (''node_modules/'' @ ''**'') = prefix ''node_modules/''"
    by (intro ext globSimple_literal_rest) simp
  finally show ?thesis
    unfolding glob_def e by simp
qed

lemma segment_prefix:
  "list_ex (prefix lit) (segmentStarts s) =
     (\<exists>pre post. s = pre @ lit @ post \<and> (pre = [] \<or> last pre = CHR ''/''))"
  unfolding list_ex_iff Bex_def segmentStarts_iff prefix_def by blast

lemma glob_node_modules:
  "glob ''**/node_modules/**'' s =
     (\<exists>pre post. s = pre @ ''node_modules/'' @ post \<and> (pre = [] \<or> last pre = CHR ''/''))"
  unfolding glob_node_modules_exec by (rule segment_prefix)

subsection \<open>The refresh cycle\<close>

lemma fetchIssues_touches_requests:
  "fetchIssues h root sv tk pk fp w = Some (r, w1) \<Longrightarrow> \<exists>sent. w1 = w\<lparr>requests := sent\<rparr>"
  by (auto simp: fetchIssues_def split: option.splits)

lemma remoteBranch_touches_requests:
  "remoteBranch h mode root cfg w = Some (r, w1) \<Longrightarrow> \<exists>sent. w1 = w\<lparr>requests := sent\<rparr>"
proof (cases "isNewMode mode")
  case True
  assume "remoteBranch h mode root cfg w = Some (r, w1)"
  with True have "w1 = w" by (simp add: remoteBranch_def)
  then have "w1 = w\<lparr>requests := requests w\<rparr>" by simp
  then show ?thesis ..
next
  case False
  assume a: "remoteBranch h mode root cfg w = Some (r, w1)"
  with False obtain r0 where
    "fetchIssues h root (cfgServer cfg) (cfgToken cfg) (cfgProjectKey cfg)
       (if isFileMode mode then activeFile h else None) w = Some (r0, w1)"
    by (auto simp: remoteBranch_def split: option.splits sum.splits)
  then show ?thesis by (rule fetchIssues_touches_requests)
qed

lemma remoteBranch_new: "isNewMode mode \<Longrightarrow> remoteBranch h mode root cfg w = Some (Inr [], w)"
  by (simp add: remoteBranch_def)

lemma remoteBranch_fetch_failed:
  "\<not> isNewMode mode \<Longrightarrow>
   fetchIssues h root (cfgServer cfg) (cfgToken cfg) (cfgProjectKey cfg)
     (if isFileMode mode then activeFile h else None) w = Some (Inl e, w1) \<Longrightarrow>
   remoteBranch h mode root cfg w = Some (Inl e, w1)"
  by (simp add: remoteBranch_def)

lemma refresh_configured:
  assumes "workspaceFolders h = Some (root # rest)"
    and "existsSync h (configPath h root)"
    and "readConfig h (configPath h root) = Inr cfg"
  shows "refreshAllIssues h mode w =
     (case remoteBranch h mode root cfg w of
        None \<Rightarrow> None
      | Some (Inl e, w1) \<Rightarrow> Some (caught e w1)
      | Some (Inr sonarIssues, w1) \<Rightarrow> Some (finishRefresh h mode sonarIssues w1))"
  using assms by (simp add: refreshAllIssues_def)

lemma findFiles_sources:
  "findFiles h ''**/*.{js,ts,jsx,tsx}'' ''**/node_modules/**'' =
     (case searchFailure h of
        Some m \<Rightarrow> Inl (Thrown m)
      | None \<Rightarrow>
          Inr (map snd (filter (\<lambda>f. (suffix ''.js'' (fst f) \<or> suffix ''.ts'' (fst f) \<or>
                                     suffix ''.jsx'' (fst f) \<or> suffix ''.tsx'' (fst f)) \<and>
                                    \<not> list_ex (prefix ''node_modules/'') (segmentStarts (fst f)))
                          (workspaceFiles h))))"
  by (simp add: findFiles_def glob_source_files glob_node_modules_exec split: option.splits)

lemma filesToAnalyze_cases:
  "filesToAnalyze h mode =
     (case activeFile h of
        None \<Rightarrow> findFiles h ''**/*.{js,ts,jsx,tsx}'' ''**/node_modules/**''
      | Some f \<Rightarrow>
          if (mode = OverallFile \<or> mode = NewFile) \<and> f \<noteq> [] then Inr [f]
          else findFiles h ''**/*.{js,ts,jsx,tsx}'' ''**/node_modules/**'')"
  by (simp add: filesToAnalyze_def isFileMode_cases split: option.splits)

lemma filesToAnalyze_cong:
  assumes "activeFile h' = activeFile h" and "workspaceFiles h' = workspaceFiles h"
    and "searchFailure h' = searchFailure h"
  shows "filesToAnalyze h' mode = filesToAnalyze h mode"
  using assms by (simp add: filesToAnalyze_def findFiles_def split: option.splits)

lemma analyzeLocal_runs:
  assumes "isNewMode mode \<or> mode = OverallAll"
    and "filesToAnalyze h mode = Inr files"
  shows "analyzeLocal h mode w =
     (case lintFiles h files of
        Inl m \<Rightarrow>
          (Inr [], w\<lparr>lintRuns := lintRuns w @ [files],
                     errorMessages := errorMessages w @ [''ESLint failed: '' @ m],
                     consoleErrors := consoleErrors w @ [Thrown m]\<rparr>)
      | Inr results \<Rightarrow>
          (Inr (concat (map (\<lambda>result. map (lintIssue result) (messages result)) results)),
           w\<lparr>lintRuns := lintRuns w @ [files]\<rparr>))"
  using assms
  by (auto simp: analyzeLocal_def runESLintAnalysis_def overall_all_name split: sum.splits)

lemma analyzeLocal_rejected:
  assumes "isNewMode mode \<or> mode = OverallAll"
    and "filesToAnalyze h mode = Inl e"
  shows "analyzeLocal h mode w = (Inl e, w)"
  using assms by (auto simp: analyzeLocal_def overall_all_name)

lemma analyzeLocal_skipped:
  "\<not> (isNewMode mode \<or> mode = OverallAll) \<Longrightarrow> analyzeLocal h mode w = (Inr [], w)"
  by (simp add: analyzeLocal_def overall_all_name)

lemma analyzeLocal_lintRuns:
  "lintRuns (snd (analyzeLocal h mode w)) =
     lintRuns w @
       (if isNewMode mode \<or> mode = OverallAll
        then (case filesToAnalyze h mode of Inl e \<Rightarrow> [] | Inr files \<Rightarrow> [files])
        else [])"
proof (cases "isNewMode mode \<or> mode = OverallAll")
  case True
  show ?thesis
  proof (cases "filesToAnalyze h mode")
    case (Inl e)
    with True show ?thesis
      by (simp add: analyzeLocal_rejected [OF True Inl])
  next
    case (Inr files)
    with True show ?thesis
      by (simp add: analyzeLocal_runs [OF True Inr] split: sum.splits)
  qed
next
  case False
  then show ?thesis
    by (simp add: analyzeLocal_skipped [OF False])
qed

lemma finishRefresh_lintRuns:
  "lintRuns (snd (finishRefresh h mode sonarIssues w)) = lintRuns (snd (analyzeLocal h mode w))"
  by (simp add: finishRefresh_def publishIssues_def showSeparatedDiagnostics_def Let_def caught_def
      split: prod.splits sum.splits)

lemma addDiagnostic_apply:
  "addDiagnostic src dc i k =
     (if k = filePath i
      then Some ((case dc k of None \<Rightarrow> [] | Some ds \<Rightarrow> ds) @ [mkDiagnostic src i])
      else dc k)"
  by (simp add: addDiagnostic_def)

lemma foldl_addDiagnostic:
  "foldl (addDiagnostic src) dc xs k =
     (if k \<in> filePath ` set xs \<or> dc k \<noteq> None
      then Some ((case dc k of None \<Rightarrow> [] | Some ds \<Rightarrow> ds) @
                 map (mkDiagnostic src) (filter (\<lambda>i. filePath i = k) xs))
      else None)"
proof (induction xs arbitrary: dc)
  case Nil
  then show ?case by (auto split: option.splits)
next
  case (Cons x xs)
  have "foldl (addDiagnostic src) dc (x # xs) k =
        foldl (addDiagnostic src) (addDiagnostic src dc x) xs k"
    by simp
  also have "\<dots> =
     (if k \<in> filePath ` set xs \<or> addDiagnostic src dc x k \<noteq> None
      then Some ((case addDiagnostic src dc x k of None \<Rightarrow> [] | Some ds \<Rightarrow> ds) @
                 map (mkDiagnostic src) (filter (\<lambda>i. filePath i = k) xs))
      else None)"
    by (rule Cons.IH)
  also have "\<dots> =
     (if k \<in> filePath ` set (x # xs) \<or> dc k \<noteq> None
      then Some ((case dc k of None \<Rightarrow> [] | Some ds \<Rightarrow> ds) @
                 map (mkDiagnostic src) (filter (\<lambda>i. filePath i = k) (x # xs)))
      else None)"
    by (auto simp: addDiagnostic_apply split: option.splits)
  finally show ?case .
qed

lemma example_fetch:
  "fetchIssues exampleHost ''/ws'' (Some ''http://sonar.local'') tk (Some ''proj'') fp w =
     Some (Inr [exampleRawA, exampleRawB],
           w\<lparr>requests := requests w @
             [issuesRequest exampleHost ''/ws'' (Some ''http://sonar.local'') tk (Some ''proj'') fp 1]\<rparr>)"
proof -
  let ?R = "issuesRequest exampleHost ''/ws'' (Some ''http://sonar.local'') tk (Some ''proj'') fp"
  have b: "pageOutcome (fetch exampleHost (?R 1)) 1 = Break [exampleRawA, exampleRawB]"
    by (simp add: exampleHost_def exampleFetch_def issuesRequest_page pageOutcome_def pageSize_def)
  have c: "\<forall>q. 1 \<le> q \<and> q < 1 \<longrightarrow> (\<exists>xs. pageOutcome (fetch exampleHost (?R q)) q = Next xs)"
    by simp
  have "[1..<Suc 1] = [1]" by simp
  with fetchIssues_run [of 1 exampleHost "''/ws''" "Some ''http://sonar.local''" tk "Some ''proj''" fp
      "[exampleRawA, exampleRawB]" w, OF _ c b] b
  show ?thesis by simp
qed

lemma example_reconciled:
  "cf = None \<or> cf = Some ''/ws/a.ts'' \<Longrightarrow>
   filterByWorkspace exampleHost [exampleRawA, exampleRawB] (Some ''proj'') ''/ws'' cf =
     Inr [exampleSonarIssue]"
  by (auto simp add: filterByWorkspace_def keepIssue_def toSonarIssue_def absPathOf_def localPath_def
      exampleRawA_def exampleRawB_def exampleHost_def templ_def stripLeadingSlashes_def truthy_def
      orString_def orNumber_def exampleSonarIssue_def)


lemma example_host_fields:
  "workspaceFolders exampleHost = Some [''/ws'']"
  "configPath exampleHost ''/ws'' = ''/ws/.vscode/sonar-config.json''"
  "existsSync exampleHost ''/ws/.vscode/sonar-config.json''"
  "readConfig exampleHost p = Inr \<lparr>cfgServer = Some ''http://sonar.local'', cfgToken = Some ''t0k'',
                                   cfgProjectKey = Some ''proj''\<rparr>"
  "activeFile exampleHost = Some ''/ws/a.ts''"
  "workspaceFiles exampleHost =
     [(''a.ts'', ''/ws/a.ts''), (''lib/util.js'', ''/ws/lib/util.js''),
      (''node_modules/dep/index.js'', ''/ws/node_modules/dep/index.js''),
      (''README.md'', ''/ws/README.md'')]"
  "searchFailure exampleHost = None"
  "selectedSeverities exampleHost = [''MAJOR'']"
  "lintFiles exampleHost = exampleLint"
  by (simp_all add: exampleHost_def configPath_def)

lemma example_search:
  "findFiles exampleHost ''**/*.{js,ts,jsx,tsx}'' ''**/node_modules/**'' =
     Inr [''/ws/a.ts'', ''/ws/lib/util.js'']"
  by (simp add: findFiles_sources example_host_fields suffix_to_prefix segmentStarts_def)

lemma example_files:
  "filesToAnalyze exampleHost NewFile = Inr [''/ws/a.ts'']"
  "filesToAnalyze exampleHost OverallFile = Inr [''/ws/a.ts'']"
  "filesToAnalyze exampleHost NewAll = Inr [''/ws/a.ts'', ''/ws/lib/util.js'']"
  "filesToAnalyze exampleHost OverallAll = Inr [''/ws/a.ts'', ''/ws/lib/util.js'']"
  by (simp_all add: filesToAnalyze_cases example_host_fields example_search)

lemma example_lint:
  "lintIssue
     \<lparr>resultFilePath = ''/ws/a.ts'',
       messages = [\<lparr>lintMessage = ''x is defined but never used'',
                    ruleId = Some ''no-unused-vars'', lintSeverity = Num 1, lintLine = 4\<rparr>]\<rparr>
     \<lparr>lintMessage = ''x is defined but never used'',
       ruleId = Some ''no-unused-vars'', lintSeverity = Num 1, lintLine = 4\<rparr> =
   exampleLintIssue"
  by (simp add: lintIssue_def orString_def mapEslintSeverity_def exampleLintIssue_def)

lemma example_remote:
  assumes "mode = OverallAll \<or> mode = OverallFile"
  shows "remoteBranch exampleHost mode ''/ws''
     \<lparr>cfgServer = Some ''http://sonar.local'', cfgToken = tk, cfgProjectKey = Some ''proj''\<rparr> w =
   Some (Inr [exampleSonarIssue],
         w\<lparr>requests := requests w @
           [issuesRequest exampleHost ''/ws'' (Some ''http://sonar.local'') tk (Some ''proj'')
              (if mode = OverallFile then Some ''/ws/a.ts'' else None) 1]\<rparr>)"
  using assms
  by (auto simp add: remoteBranch_def isNewMode_cases isFileMode_cases example_fetch
      example_reconciled example_host_fields)

lemma publishIssues_eq:
  "publishIssues h sonarIssues localIssues w =
     (filterBySeverity (selectedSeverities h) sonarIssues @
      filterBySeverity (selectedSeverities h) localIssues,
      showSeparatedDiagnostics (filterBySeverity (selectedSeverities h) sonarIssues)
        (filterBySeverity (selectedSeverities h) localIssues) w)"
  by (simp add: publishIssues_def Let_def)

lemma filterBySeverity_Nil: "filterBySeverity selected [] = []"
  by (simp add: filterBySeverity_def)


lemma remoteBranch_cong:
  assumes "fetch h' = fetch h" and "configuredSeverities h' = configuredSeverities h"
    and "pathRelative h' = pathRelative h" and "pathJoin h' = pathJoin h"
    and "existsSync h' = existsSync h" and "activeFile h' = activeFile h"
  shows "remoteBranch h' mode root cfg w = remoteBranch h mode root cfg w"
proof -
  have r: "issuesRequest h' root sv tk pk fp = issuesRequest h root sv tk pk fp" for sv tk pk fp
    using assms by (simp add: issuesRequest_def extraFilter_def split: option.splits)
  have k: "keepIssue h' pk root cf = keepIssue h pk root cf" for pk cf
    using assms by (intro ext) (simp add: keepIssue_def absPathOf_def localPath_def split: option.splits)
  have t: "toSonarIssue h' pk root = toSonarIssue h pk root" for pk
    using assms by (intro ext) (simp add: toSonarIssue_def absPathOf_def localPath_def split: option.splits)
  have f: "fetchIssues h' root sv tk pk fp w = fetchIssues h root sv tk pk fp w" for sv tk pk fp
    using assms by (simp add: fetchIssues_def r)
  have g: "filterByWorkspace h' api pk root cf = filterByWorkspace h api pk root cf" for api pk cf
    by (simp add: filterByWorkspace_def k t split: sum.splits)
  show ?thesis
    using assms by (simp add: remoteBranch_def f g split: option.splits sum.splits prod.splits)
qed


lemma example_local:
  assumes "lintFiles h = exampleLint"
    and "filesToAnalyze h mode = Inr files"
    and "mode = OverallAll \<or> mode = NewAll"
  shows "analyzeLocal h mode w = (Inr [exampleLintIssue], w\<lparr>lintRuns := lintRuns w @ [files]\<rparr>)"
proof -
  have run: "isNewMode mode \<or> mode = OverallAll"
    using assms(3) by (auto simp: isNewMode_cases)
  show ?thesis
    by (simp add: analyzeLocal_runs [OF run assms(2)] assms(1) exampleLint_def example_lint)
qed

lemma example_filter_major:
  "filterBySeverity [''MAJOR''] [exampleSonarIssue] = [exampleSonarIssue]"
  "filterBySeverity [''MAJOR''] [exampleLintIssue] = [exampleLintIssue]"
  by (simp_all add: filterBySeverity_def exampleSonarIssue_def exampleLintIssue_def)


lemma example_overall_all:
  "refreshAllIssues exampleHost OverallAll exampleWorld =
     Some ([exampleSonarIssue, exampleLintIssue],
           showSeparatedDiagnostics [exampleSonarIssue] [exampleLintIssue]
             (exampleWorld\<lparr>requests :=
                 [issuesRequest exampleHost ''/ws'' (Some ''http://sonar.local'') (Some ''t0k'')
                    (Some ''proj'') None 1],
               lintRuns := [[''/ws/a.ts'', ''/ws/lib/util.js'']]\<rparr>))"
proof -
  have f: "workspaceFolders exampleHost = Some (''/ws'' # [])"
    "existsSync exampleHost (configPath exampleHost ''/ws'')"
    "readConfig exampleHost (configPath exampleHost ''/ws'') =
       Inr \<lparr>cfgServer = Some ''http://sonar.local'', cfgToken = Some ''t0k'',
            cfgProjectKey = Some ''proj''\<rparr>"
    by (simp_all add: example_host_fields)
  have l: "analyzeLocal exampleHost OverallAll w =
     (Inr [exampleLintIssue], w\<lparr>lintRuns := lintRuns w @ [[''/ws/a.ts'', ''/ws/lib/util.js'']]\<rparr>)" for w
    by (rule example_local) (simp_all add: example_host_fields example_files)
  show ?thesis
    by (simp add: refresh_configured [OF f] example_remote finishRefresh_def l
        publishIssues_eq example_host_fields example_filter_major exampleWorld_def)
qed

lemma incomplete_host_fields:
  "workspaceFolders incompleteConfigHost = Some (''/ws'' # [])"
  "existsSync incompleteConfigHost (configPath incompleteConfigHost ''/ws'')"
  "readConfig incompleteConfigHost (configPath incompleteConfigHost ''/ws'') =
     Inr \<lparr>cfgServer = Some ''http://sonar.local'', cfgToken = None, cfgProjectKey = Some ''proj''\<rparr>"
  "selectedSeverities incompleteConfigHost = [''MAJOR'']"
  "filesToAnalyze incompleteConfigHost mode = filesToAnalyze exampleHost mode"
  by (simp_all add: incompleteConfigHost_def exampleHost_def configPath_def filesToAnalyze_def
      findFiles_def)

lemma example_incomplete_new_all:
  "refreshAllIssues incompleteConfigHost NewAll exampleWorld =
     Some ([exampleLintIssue],
           showSeparatedDiagnostics [] [exampleLintIssue]
             (exampleWorld\<lparr>lintRuns := [[''/ws/a.ts'', ''/ws/lib/util.js'']]\<rparr>))"
proof -
  have l: "analyzeLocal incompleteConfigHost NewAll w =
     (Inr [exampleLintIssue], w\<lparr>lintRuns := lintRuns w @ [[''/ws/a.ts'', ''/ws/lib/util.js'']]\<rparr>)" for w
    by (rule example_local)
       (simp_all add: incomplete_host_fields(5) example_files, simp add: incompleteConfigHost_def example_host_fields)
  show ?thesis
    by (simp add: refresh_configured [OF incomplete_host_fields(1-3)] remoteBranch_new isNewMode_cases
        finishRefresh_def l publishIssues_eq incomplete_host_fields(4) example_filter_major
        filterBySeverity_Nil exampleWorld_def)
qed

lemma example_incomplete_overall_all:
  "refreshAllIssues incompleteConfigHost OverallAll exampleWorld =
     Some ([exampleSonarIssue, exampleLintIssue],
           showSeparatedDiagnostics [exampleSonarIssue] [exampleLintIssue]
             (exampleWorld\<lparr>requests :=
                 [issuesRequest exampleHost ''/ws'' (Some ''http://sonar.local'') None
                    (Some ''proj'') None 1],
               lintRuns := [[''/ws/a.ts'', ''/ws/lib/util.js'']]\<rparr>))"
proof -
  have r: "remoteBranch incompleteConfigHost mode root cfg w = remoteBranch exampleHost mode root cfg w"
    for mode root cfg w
    by (rule remoteBranch_cong) (simp_all add: incompleteConfigHost_def)
  have l: "analyzeLocal incompleteConfigHost OverallAll w =
     (Inr [exampleLintIssue], w\<lparr>lintRuns := lintRuns w @ [[''/ws/a.ts'', ''/ws/lib/util.js'']]\<rparr>)" for w
    by (rule example_local)
       (simp_all add: incomplete_host_fields(5) example_files, simp add: incompleteConfigHost_def example_host_fields)
  show ?thesis
    by (simp add: refresh_configured [OF incomplete_host_fields(1-3)] r example_remote finishRefresh_def l
        publishIssues_eq incomplete_host_fields(4) example_filter_major exampleWorld_def)
qed

lemma offline_fetch:
  "fetchIssues offlineHost ''/ws'' sv tk pk fp w =
     Some (Inl (Thrown ''connect ECONNREFUSED''),
           w\<lparr>requests := requests w @ [issuesRequest offlineHost ''/ws'' sv tk pk fp 1]\<rparr>)"
proof -
  let ?R = "issuesRequest offlineHost ''/ws'' sv tk pk fp"
  have b: "pageOutcome (fetch offlineHost (?R 1)) 1 = Failed (Thrown ''connect ECONNREFUSED'')"
    by (simp add: offlineHost_def pageOutcome_def)
  have c: "\<forall>q. 1 \<le> q \<and> q < 1 \<longrightarrow> (\<exists>xs. pageOutcome (fetch offlineHost (?R q)) q = Next xs)"
    by simp
  have "[1..<Suc 1] = [1]" by simp
  with fetchIssues_fail [of 1 offlineHost "''/ws''" sv tk pk fp "Thrown ''connect ECONNREFUSED''" w,
      OF _ c b]
  show ?thesis by simp
qed

lemma showSeparatedDiagnostics_remote_only:
  "diagnosticCollection (showSeparatedDiagnostics kept [] w) k =
     (if k \<in> filePath ` set kept
      then Some (map (mkDiagnostic ''SonarQube'') (filter (\<lambda>j. filePath j = k) kept))
      else None)"
  by (simp add: showSeparatedDiagnostics_def foldl_addDiagnostic)


text \<open>
  Claim C1. In a mode whose horizon is "overall", with a workspace folder and a
  configuration that can be read, when the remote fetch throws (the request is rejected
  or the body does not parse), the refresh returns the empty list, whatever the files of
  the workspace, the outcome of a search and the lint engine would have given; no lint
  run is made, the error goes to the console, the caller sets its store to the empty
  list, and an attached view shows the "no issues" message. The fetch throws when,
  after pages that go on, a request is rejected or the body of a successful response
  does not parse.
\<close>

theorem remote_failure_voids_cycle:
  assumes "workspaceFolders h = Some (root # rest)"
    and "existsSync h (configPath h root)"
    and "readConfig h (configPath h root) = Inr cfg"
    and "\<not> isNewMode mode"
    and "fetchIssues h root (cfgServer cfg) (cfgToken cfg) (cfgProjectKey cfg)
           (if isFileMode mode then activeFile h else None) w = Some (Inl e, w1)"
  shows "refreshAllIssues (h\<lparr>workspaceFiles := found, searchFailure := sf, lintFiles := lf\<rparr>) mode w =
           Some ([], w1\<lparr>consoleErrors := consoleErrors w1 @ [e]\<rparr>) \<and>
         lintRuns w1 = lintRuns w \<and>
         refreshIssuesCommand (h\<lparr>workspaceFiles := found, searchFailure := sf, lintFiles := lf\<rparr>)
             mode (w, p) =
           Some (w1\<lparr>consoleErrors := consoleErrors w1 @ [e]\<rparr>, setIssues [] p) \<and>
         map_option tvMessage (treeView (setIssues [] p)) =
           map_option (\<lambda>tv. Some noIssuesMessage) (treeView p) \<and>
         (1 \<le> n \<and>
          (\<forall>q. 1 \<le> q \<and> q < n \<longrightarrow>
             (\<exists>xs. pageOutcome (fetch h (issuesRequest h root sv tk pk fp q)) q = Next xs)) \<and>
          (fetch h (issuesRequest h root sv tk pk fp n) = Inl msg \<or>
           (\<exists>res. fetch h (issuesRequest h root sv tk pk fp n) = Inr res \<and> ok res \<and>
                  json res = Inl msg)) \<longrightarrow>
            fetchIssues h root sv tk pk fp w =
              Some (Inl (Thrown msg),
                    w\<lparr>requests := requests w @ map (issuesRequest h root sv tk pk fp) [1..<Suc n]\<rparr>))"
proof -
  let ?h = "h\<lparr>workspaceFiles := found, searchFailure := sf, lintFiles := lf\<rparr>"
  have c: "workspaceFolders ?h = Some (root # rest)"
    "existsSync ?h (configPath ?h root)"
    "readConfig ?h (configPath ?h root) = Inr cfg"
    using assms(1-3) by (simp_all add: configPath_def)
  have "remoteBranch ?h mode root cfg w = remoteBranch h mode root cfg w"
    by (rule remoteBranch_cong) simp_all
  also have "\<dots> = Some (Inl e, w1)"
    using assms(4,5) by (rule remoteBranch_fetch_failed)
  finally have r: "remoteBranch ?h mode root cfg w = Some (Inl e, w1)" .
  have a: "refreshAllIssues ?h mode w = Some ([], w1\<lparr>consoleErrors := consoleErrors w1 @ [e]\<rparr>)"
    by (simp add: refresh_configured [OF c] r caught_def)
  from fetchIssues_touches_requests [OF assms(5)] have b: "lintRuns w1 = lintRuns w"
    by auto
  have d: "refreshIssuesCommand ?h mode (w, p) =
           Some (w1\<lparr>consoleErrors := consoleErrors w1 @ [e]\<rparr>, setIssues [] p)"
    by (simp add: refreshIssuesCommand_def a)
  have m: "map_option tvMessage (treeView (setIssues [] p)) =
           map_option (\<lambda>tv. Some noIssuesMessage) (treeView p)"
    by (simp add: setIssues_treeView option.map_comp comp_def)
  have x: "fetchIssues h root sv tk pk fp w =
      Some (Inl (Thrown msg),
            w\<lparr>requests := requests w @ map (issuesRequest h root sv tk pk fp) [1..<Suc n]\<rparr>)"
    if "1 \<le> n"
      and "\<forall>q. 1 \<le> q \<and> q < n \<longrightarrow>
             (\<exists>xs. pageOutcome (fetch h (issuesRequest h root sv tk pk fp q)) q = Next xs)"
      and "fetch h (issuesRequest h root sv tk pk fp n) = Inl msg \<or>
           (\<exists>res. fetch h (issuesRequest h root sv tk pk fp n) = Inr res \<and> ok res \<and>
                  json res = Inl msg)"
  proof -
    from that(3) have "pageOutcome (fetch h (issuesRequest h root sv tk pk fp n)) n = Failed (Thrown msg)"
      by (auto simp: pageOutcome_def)
    with that(1,2) show ?thesis
      by (intro fetchIssues_fail)
  qed
  from a b d m x show ?thesis by blast
qed

theorem remote_failure_voids_cycle_witness:
  "refreshAllIssues
     (offlineHost\<lparr>workspaceFiles := [(''a.ts'', ''/ws/a.ts'')], searchFailure := None,
                  lintFiles := exampleLint\<rparr>)
     OverallAll exampleWorld =
     Some ([], exampleWorld
       \<lparr>requests := [issuesRequest offlineHost ''/ws'' (Some ''http://sonar.local'') (Some ''t0k'')
                       (Some ''proj'') None 1],
        consoleErrors := [Thrown ''connect ECONNREFUSED'']\<rparr>) \<and>
   map_option (map_option tvMessage \<circ> treeView \<circ> snd)
     (refreshIssuesCommand
        (offlineHost\<lparr>workspaceFiles := [(''a.ts'', ''/ws/a.ts'')], searchFailure := None,
                     lintFiles := exampleLint\<rparr>)
        OverallAll (exampleWorld, exampleProvider)) = Some (Some (Some noIssuesMessage))"
proof -
  let ?cfg = "\<lparr>cfgServer = Some ''http://sonar.local'', cfgToken = Some ''t0k'',
               cfgProjectKey = Some ''proj''\<rparr>"
  let ?w1 = "exampleWorld\<lparr>requests := requests exampleWorld @
       [issuesRequest offlineHost ''/ws'' (Some ''http://sonar.local'') (Some ''t0k'')
          (Some ''proj'') None 1]\<rparr>"
  have f: "workspaceFolders offlineHost = Some (''/ws'' # [])"
    "existsSync offlineHost (configPath offlineHost ''/ws'')"
    "readConfig offlineHost (configPath offlineHost ''/ws'') = Inr ?cfg"
    "\<not> isNewMode OverallAll"
    by (simp_all add: offlineHost_def exampleHost_def configPath_def isNewMode_cases)
  have g: "fetchIssues offlineHost ''/ws'' (cfgServer ?cfg) (cfgToken ?cfg) (cfgProjectKey ?cfg)
           (if isFileMode OverallAll then activeFile offlineHost else None) exampleWorld =
        Some (Inl (Thrown ''connect ECONNREFUSED''), ?w1)"
    by (simp add: offline_fetch isFileMode_cases)
  have t: "treeView exampleProvider = Some \<lparr>tvMessage = None\<rparr>"
    by (simp add: exampleProvider_def setTreeView_def newProvider_def)
  show ?thesis
    using remote_failure_voids_cycle [OF f g, where found = "[(''a.ts'', ''/ws/a.ts'')]" and sf = None
        and lf = exampleLint and p = exampleProvider]
    by (simp add: exampleWorld_def t)
qed

lemma findFiles_source_files:
  "findFiles h ''**/*.{js,ts,jsx,tsx}'' ''**/node_modules/**'' =
     (case searchFailure h of
        Some m \<Rightarrow> Inl (Thrown m)
      | None \<Rightarrow>
          Inr (map snd (filter (\<lambda>f. (suffix ''.js'' (fst f) \<or> suffix ''.ts'' (fst f) \<or>
                                     suffix ''.jsx'' (fst f) \<or> suffix ''.tsx'' (fst f)) \<and>
                                    \<not> (\<exists>pre post. fst f = pre @ ''node_modules/'' @ post \<and>
                                          (pre = [] \<or> last pre = CHR ''/'')))
                          (workspaceFiles h))))"
  by (simp add: findFiles_def glob_source_files glob_node_modules split: option.splits)

text \<open>
  Claim C2, as the code has it. In a cycle with a workspace folder and a configuration
  that can be read, whose remote branch has returned its issues, the lint engine is run
  once, on the files to analyse, when the mode is a new-code mode or \<open>overall-all\<close>;
  it is not run in \<open>overall-file\<close>, nor when the remote branch throws, nor when the
  search for the files rejects (the cycle then ends with the empty list and the error on
  the console). In a new-code mode the remote branch always returns (the empty list,
  with nothing sent). The files to analyse are the current file alone in a file mode with
  a current file; otherwise they are the files of the workspace whose relative path ends
  in \<open>.js\<close>, \<open>.ts\<close>, \<open>.jsx\<close> or \<open>.tsx\<close> and has no directory \<open>node_modules\<close>
  on it, in the order of the search.
\<close>

theorem local_analysis_runs:
  assumes "workspaceFolders h = Some (root # rest)"
    and "existsSync h (configPath h root)"
    and "readConfig h (configPath h root) = Inr cfg"
  shows "(remoteBranch h mode root cfg w = Some (Inr sonarIssues, w1) \<and> mode \<noteq> OverallFile \<and>
          filesToAnalyze h mode = Inr files \<longrightarrow>
            map_option (lintRuns \<circ> snd) (refreshAllIssues h mode w) = Some (lintRuns w @ [files])) \<and>
         (remoteBranch h mode root cfg w = Some (Inr sonarIssues, w1) \<and> mode = OverallFile \<longrightarrow>
            map_option (lintRuns \<circ> snd) (refreshAllIssues h mode w) = Some (lintRuns w)) \<and>
         (remoteBranch h mode root cfg w = Some (Inl e, w1) \<longrightarrow>
            map_option (lintRuns \<circ> snd) (refreshAllIssues h mode w) = Some (lintRuns w)) \<and>
         (remoteBranch h mode root cfg w = Some (Inr sonarIssues, w1) \<and> mode \<noteq> OverallFile \<and>
          filesToAnalyze h mode = Inl e \<longrightarrow>
            refreshAllIssues h mode w = Some ([], w1\<lparr>consoleErrors := consoleErrors w1 @ [e]\<rparr>) \<and>
            lintRuns w1 = lintRuns w) \<and>
         (mode = NewAll \<or> mode = NewFile \<longrightarrow> remoteBranch h mode root cfg w = Some (Inr [], w)) \<and>
         ((mode = OverallFile \<or> mode = NewFile) \<and> activeFile h = Some cur \<and> cur \<noteq> [] \<longrightarrow>
            filesToAnalyze h mode = Inr [cur]) \<and>
         (\<not> ((mode = OverallFile \<or> mode = NewFile) \<and> (\<exists>g. activeFile h = Some g \<and> g \<noteq> [])) \<longrightarrow>
            filesToAnalyze h mode =
              (case searchFailure h of
                 Some m \<Rightarrow> Inl (Thrown m)
               | None \<Rightarrow>
                   Inr (map snd
                     (filter (\<lambda>f. (suffix ''.js'' (fst f) \<or> suffix ''.ts'' (fst f) \<or>
                                   suffix ''.jsx'' (fst f) \<or> suffix ''.tsx'' (fst f)) \<and>
                                  \<not> (\<exists>pre post. fst f = pre @ ''node_modules/'' @ post \<and>
                                        (pre = [] \<or> last pre = CHR ''/'')))
                        (workspaceFiles h)))))"
proof -
  have runs: "(isNewMode mode \<or> mode = OverallAll) = (mode \<noteq> OverallFile)"
    by (cases mode) (simp_all add: isNewMode_cases)
  have a: "map_option (lintRuns \<circ> snd) (refreshAllIssues h mode w) = Some (lintRuns w @ [files])"
    if r: "remoteBranch h mode root cfg w = Some (Inr sonarIssues, w1)"
      and m: "mode \<noteq> OverallFile" and f: "filesToAnalyze h mode = Inr files"
  proof -
    from remoteBranch_touches_requests [OF r] have "lintRuns w1 = lintRuns w" by auto
    then show ?thesis
      by (simp add: refresh_configured [OF assms] r finishRefresh_lintRuns analyzeLocal_lintRuns
          runs m f)
  qed
  have b: "map_option (lintRuns \<circ> snd) (refreshAllIssues h mode w) = Some (lintRuns w)"
    if r: "remoteBranch h mode root cfg w = Some (Inr sonarIssues, w1)" and m: "mode = OverallFile"
  proof -
    from remoteBranch_touches_requests [OF r] have same: "lintRuns w1 = lintRuns w" by auto
    from m have "\<not> (isNewMode mode \<or> mode = OverallAll)"
      by (simp add: isNewMode_cases)
    then have "lintRuns (snd (finishRefresh h mode sonarIssues w1)) = lintRuns w1"
      by (simp add: finishRefresh_lintRuns analyzeLocal_lintRuns)
    with same show ?thesis
      by (simp add: refresh_configured [OF assms] r)
  qed
  have c: "map_option (lintRuns \<circ> snd) (refreshAllIssues h mode w) = Some (lintRuns w)"
    if r: "remoteBranch h mode root cfg w = Some (Inl e, w1)"
  proof -
    from remoteBranch_touches_requests [OF r] have "lintRuns w1 = lintRuns w" by auto
    then show ?thesis
      by (simp add: refresh_configured [OF assms] r caught_def)
  qed
  have d: "refreshAllIssues h mode w = Some ([], w1\<lparr>consoleErrors := consoleErrors w1 @ [e]\<rparr>) \<and>
           lintRuns w1 = lintRuns w"
    if r: "remoteBranch h mode root cfg w = Some (Inr sonarIssues, w1)"
      and m: "mode \<noteq> OverallFile" and f: "filesToAnalyze h mode = Inl e"
  proof -
    from m have run: "isNewMode mode \<or> mode = OverallAll"
      by (simp add: runs)
    from remoteBranch_touches_requests [OF r] have "lintRuns w1 = lintRuns w" by auto
    then show ?thesis
      by (simp add: refresh_configured [OF assms] r finishRefresh_def
          analyzeLocal_rejected [OF run f] caught_def)
  qed
  have n: "remoteBranch h mode root cfg w = Some (Inr [], w)" if "mode = NewAll \<or> mode = NewFile"
    using that by (intro remoteBranch_new) (simp add: isNewMode_cases)
  have one: "filesToAnalyze h mode = Inr [cur]"
    if "(mode = OverallFile \<or> mode = NewFile) \<and> activeFile h = Some cur \<and> cur \<noteq> []"
    using that by (simp add: filesToAnalyze_cases)
  have search: "filesToAnalyze h mode =
              (case searchFailure h of
                 Some m \<Rightarrow> Inl (Thrown m)
               | None \<Rightarrow>
                   Inr (map snd
                     (filter (\<lambda>f. (suffix ''.js'' (fst f) \<or> suffix ''.ts'' (fst f) \<or>
                                   suffix ''.jsx'' (fst f) \<or> suffix ''.tsx'' (fst f)) \<and>
                                  \<not> (\<exists>pre post. fst f = pre @ ''node_modules/'' @ post \<and>
                                        (pre = [] \<or> last pre = CHR ''/'')))
                        (workspaceFiles h))))"
    if "\<not> ((mode = OverallFile \<or> mode = NewFile) \<and> (\<exists>g. activeFile h = Some g \<and> g \<noteq> []))"
  proof -
    from that have "filesToAnalyze h mode = findFiles h ''**/*.{js,ts,jsx,tsx}'' ''**/node_modules/**''"
      by (auto simp: filesToAnalyze_cases split: option.splits)
    then show ?thesis
      by (simp only: findFiles_source_files)
  qed
  from a b c d n one search show ?thesis by blast
qed

theorem local_analysis_runs_witness:
  "map_option (lintRuns \<circ> snd) (refreshAllIssues exampleHost NewFile exampleWorld) =
     Some [[''/ws/a.ts'']] \<and>
   map_option (lintRuns \<circ> snd) (refreshAllIssues exampleHost NewAll exampleWorld) =
     Some [[''/ws/a.ts'', ''/ws/lib/util.js'']] \<and>
   map_option (lintRuns \<circ> snd) (refreshAllIssues exampleHost OverallAll exampleWorld) =
     Some [[''/ws/a.ts'', ''/ws/lib/util.js'']] \<and>
   map_option (lintRuns \<circ> snd) (refreshAllIssues exampleHost OverallFile exampleWorld) =
     Some [] \<and>
   filesToAnalyze exampleHost NewAll = Inr [''/ws/a.ts'', ''/ws/lib/util.js''] \<and>
   refreshAllIssues brokenSearchHost NewAll exampleWorld =
     Some ([], exampleWorld\<lparr>consoleErrors := [Thrown ''search cancelled'']\<rparr>)"
proof -
  let ?cfg = "\<lparr>cfgServer = Some ''http://sonar.local'', cfgToken = Some ''t0k'',
               cfgProjectKey = Some ''proj''\<rparr>"
  let ?w1 = "\<lambda>mode. exampleWorld\<lparr>requests := requests exampleWorld @
           [issuesRequest exampleHost ''/ws'' (Some ''http://sonar.local'') (Some ''t0k'') (Some ''proj'')
              (if mode = OverallFile then Some ''/ws/a.ts'' else None) 1]\<rparr>"
  have f: "workspaceFolders exampleHost = Some (''/ws'' # [])"
    "existsSync exampleHost (configPath exampleHost ''/ws'')"
    "readConfig exampleHost (configPath exampleHost ''/ws'') = Inr ?cfg"
    by (simp_all add: example_host_fields)
  have fb: "workspaceFolders brokenSearchHost = Some (''/ws'' # [])"
    "existsSync brokenSearchHost (configPath brokenSearchHost ''/ws'')"
    "readConfig brokenSearchHost (configPath brokenSearchHost ''/ws'') = Inr ?cfg"
    by (simp_all add: brokenSearchHost_def exampleHost_def configPath_def)
  have n: "remoteBranch exampleHost NewFile ''/ws'' ?cfg exampleWorld = Some (Inr [], exampleWorld)"
    "remoteBranch exampleHost NewAll ''/ws'' ?cfg exampleWorld = Some (Inr [], exampleWorld)"
    "remoteBranch brokenSearchHost NewAll ''/ws'' ?cfg exampleWorld = Some (Inr [], exampleWorld)"
    by (simp_all add: remoteBranch_new isNewMode_cases)
  have o: "remoteBranch exampleHost OverallAll ''/ws'' ?cfg exampleWorld =
             Some (Inr [exampleSonarIssue], ?w1 OverallAll)"
    "remoteBranch exampleHost OverallFile ''/ws'' ?cfg exampleWorld =
             Some (Inr [exampleSonarIssue], ?w1 OverallFile)"
    by (simp_all add: example_remote)
  have l: "lintRuns exampleWorld = []" "consoleErrors exampleWorld = []"
    by (simp_all add: exampleWorld_def)
  have act: "activeFile exampleHost = Some ''/ws/a.ts''" "searchFailure exampleHost = None"
    by (simp_all add: example_host_fields)
  have rejected: "filesToAnalyze brokenSearchHost NewAll = Inl (Thrown ''search cancelled'')"
    using local_analysis_runs [OF fb, where mode = NewAll]
    by (simp add: brokenSearchHost_def)
  have all: "filesToAnalyze exampleHost NewAll = Inr [''/ws/a.ts'', ''/ws/lib/util.js'']"
    by (simp add: example_files)
  have "map_option (lintRuns \<circ> snd) (refreshAllIssues exampleHost NewFile exampleWorld) =
      Some (lintRuns exampleWorld @ [[''/ws/a.ts'']])"
    using local_analysis_runs [OF f, where mode = NewFile and w = exampleWorld
        and sonarIssues = "[]" and ?w1.0 = exampleWorld and files = "[''/ws/a.ts'']"
        and cur = "''/ws/a.ts''"] n(1) act
    by simp
  moreover have "map_option (lintRuns \<circ> snd) (refreshAllIssues exampleHost NewAll exampleWorld) =
      Some (lintRuns exampleWorld @ [[''/ws/a.ts'', ''/ws/lib/util.js'']])"
    using local_analysis_runs [OF f, where mode = NewAll and w = exampleWorld
        and sonarIssues = "[]" and ?w1.0 = exampleWorld
        and files = "[''/ws/a.ts'', ''/ws/lib/util.js'']"] n(2) all
    by simp
  moreover have "map_option (lintRuns \<circ> snd) (refreshAllIssues exampleHost OverallAll exampleWorld) =
      Some (lintRuns exampleWorld @ [[''/ws/a.ts'', ''/ws/lib/util.js'']])"
    using local_analysis_runs [OF f, where mode = OverallAll and w = exampleWorld
        and sonarIssues = "[exampleSonarIssue]" and ?w1.0 = "?w1 OverallAll"
        and files = "[''/ws/a.ts'', ''/ws/lib/util.js'']"] o(1) example_files(4)
    by simp
  moreover have "map_option (lintRuns \<circ> snd) (refreshAllIssues exampleHost OverallFile exampleWorld) =
      Some (lintRuns exampleWorld)"
    using local_analysis_runs [OF f, where mode = OverallFile and w = exampleWorld
        and sonarIssues = "[exampleSonarIssue]" and ?w1.0 = "?w1 OverallFile"] o(2)
    by simp
  moreover have "refreshAllIssues brokenSearchHost NewAll exampleWorld =
     Some ([], exampleWorld\<lparr>consoleErrors := consoleErrors exampleWorld @ [Thrown ''search cancelled'']\<rparr>)"
    using local_analysis_runs [OF fb, where mode = NewAll and w = exampleWorld
        and sonarIssues = "[]" and ?w1.0 = exampleWorld and e = "Thrown ''search cancelled''"]
      n(3) rejected
    by simp
  ultimately show ?thesis
    by (simp add: l all)
qed

text \<open>
  The claim as it was written fails in \<open>overall-all\<close>, whose horizon is "overall": the
  lint engine is run there, and its finding is part of the result.
\<close>

theorem overall_all_lints_counterexample:
  "\<not> isNewMode OverallAll \<and>
   map_option (lintRuns \<circ> snd) (refreshAllIssues exampleHost OverallAll exampleWorld) =
     Some [[''/ws/a.ts'', ''/ws/lib/util.js'']] \<and>
   map_option fst (refreshAllIssues exampleHost OverallAll exampleWorld) =
     Some [exampleSonarIssue, exampleLintIssue]"
  unfolding example_overall_all
  by (simp add: isNewMode_cases showSeparatedDiagnostics_def)

text \<open>
  Claim C6. With the single severity \<open>S\<close> selected, the filter applied to the
  remote list and to the local list keeps, of each list on its own, exactly the issues
  of severity \<open>S\<close>, in their order; and that is what a cycle publishes and returns:
  the filtered remote list followed by the filtered local list.
\<close>

theorem severity_filter_single:
  "filterBySeverity [S] sonarIssues = filter (\<lambda>i. severity i = S) sonarIssues \<and>
   filterBySeverity [S] localIssues = filter (\<lambda>i. severity i = S) localIssues \<and>
   set (filterBySeverity [S] sonarIssues) = {i \<in> set sonarIssues. severity i = S} \<and>
   set (filterBySeverity [S] localIssues) = {i \<in> set localIssues. severity i = S} \<and>
   (selectedSeverities h = [S] \<longrightarrow>
      publishIssues h sonarIssues localIssues w =
        (filter (\<lambda>i. severity i = S) sonarIssues @ filter (\<lambda>i. severity i = S) localIssues,
         showSeparatedDiagnostics (filter (\<lambda>i. severity i = S) sonarIssues)
           (filter (\<lambda>i. severity i = S) localIssues) w))"
  by (simp add: publishIssues_eq filterBySeverity_def)

theorem severity_filter_single_witness:
  "filterBySeverity [''MAJOR''] [exampleIssueA, exampleIssueB] = [exampleIssueA] \<and>
   filterBySeverity [''INFO''] [exampleIssueA, exampleIssueB] = [exampleIssueB] \<and>
   fst (publishIssues exampleHost [exampleIssueA, exampleIssueB] [exampleLintIssue] exampleWorld) =
     [exampleIssueA, exampleLintIssue]"
proof -
  have s: "selectedSeverities exampleHost = [''MAJOR'']"
    by (simp add: example_host_fields)
  show ?thesis
    using severity_filter_single [of "''MAJOR''" "[exampleIssueA, exampleIssueB]" "[exampleLintIssue]"
        exampleHost exampleWorld]
      severity_filter_single [of "''INFO''" "[exampleIssueA, exampleIssueB]" "[]"]
      s
    by (simp add: exampleIssueA_def exampleIssueB_def exampleLintIssue_def)
qed


text \<open>
  The part of claim C8 on an absent configuration. With no workspace folder the refresh
  returns the empty list and changes nothing. With a workspace folder whose
  configuration file does not exist, it shows the warning "Sonar config not found" and
  returns the empty list; no request is sent and no lint run is made. When reading or
  parsing the file throws, the error goes to the console and the result is empty, again
  with nothing sent and nothing analysed.
\<close>

lemma refresh_without_config:
  "(workspaceFolders h = None \<longrightarrow> refreshAllIssues h mode w = Some ([], w)) \<and>
   (workspaceFolders h = Some (root # rest) \<and>
    \<not> existsSync h (pathJoin h [root, ''.vscode'', ''sonar-config.json'']) \<longrightarrow>
      refreshAllIssues h mode w =
        Some ([], w\<lparr>warningMessages := warningMessages w @ [''Sonar config not found'']\<rparr>)) \<and>
   (workspaceFolders h = Some (root # rest) \<and>
    existsSync h (pathJoin h [root, ''.vscode'', ''sonar-config.json'']) \<and>
    readConfig h (pathJoin h [root, ''.vscode'', ''sonar-config.json'']) = Inl m \<longrightarrow>
      refreshAllIssues h mode w =
        Some ([], w\<lparr>consoleErrors := consoleErrors w @ [Thrown m]\<rparr>))"
  by (simp add: refreshAllIssues_def configPath_def caught_def)

text \<open>
  Claim C8 does not hold of \<open>refreshAllIssues\<close> for a configuration that is
  structurally incomplete: the three fields are destructured and used unchecked. With a
  configuration file that parses to a server and a project key but no token, the
  refresh in \<open>new-all\<close> runs the lint engine and returns its finding, with no warning
  and no error message; in \<open>overall-all\<close> it sends the search request, with the
  credentials \<open>undefined:\<close>, runs the lint engine, and returns the remote and the
  local findings.
\<close>

theorem incomplete_config_is_used:
  "readConfig incompleteConfigHost ''/ws/.vscode/sonar-config.json'' =
     Inr \<lparr>cfgServer = Some ''http://sonar.local'', cfgToken = None, cfgProjectKey = Some ''proj''\<rparr> \<and>
   map_option fst (refreshAllIssues incompleteConfigHost NewAll exampleWorld) =
     Some [exampleLintIssue] \<and>
   map_option (lintRuns \<circ> snd) (refreshAllIssues incompleteConfigHost NewAll exampleWorld) =
     Some [[''/ws/a.ts'', ''/ws/lib/util.js'']] \<and>
   map_option (warningMessages \<circ> snd) (refreshAllIssues incompleteConfigHost NewAll exampleWorld) =
     Some [] \<and>
   map_option (errorMessages \<circ> snd) (refreshAllIssues incompleteConfigHost NewAll exampleWorld) =
     Some [] \<and>
   map_option fst (refreshAllIssues incompleteConfigHost OverallAll exampleWorld) =
     Some [exampleSonarIssue, exampleLintIssue] \<and>
   map_option (lintRuns \<circ> snd) (refreshAllIssues incompleteConfigHost OverallAll exampleWorld) =
     Some [[''/ws/a.ts'', ''/ws/lib/util.js'']] \<and>
   map_option (map reqCredentials \<circ> requests \<circ> snd)
     (refreshAllIssues incompleteConfigHost OverallAll exampleWorld) = Some [''undefined:'']"
  unfolding example_incomplete_new_all example_incomplete_overall_all
  by (simp add: showSeparatedDiagnostics_def exampleWorld_def incompleteConfigHost_def
      issuesRequest_def searchRequest_def templ_def)

lemma mkDiagnostic_explicit:
  "mkDiagnostic src j =
     \<lparr>diagRange = \<lparr>rangeStartLine = line j - 1, rangeStartCharacter = 0,
                   rangeEndLine = line j - 1, rangeEndCharacter = 100\<rparr>,
      diagMessage =
        (if severity j = ''BLOCKER'' \<or> severity j = ''CRITICAL'' \<or> severity j = ''MAJOR'' \<or>
            severity j = ''MINOR'' then severity j else ''INFO'') @
        '': '' @ message j @ '' ('' @ rule j @ '')'',
      diagSeverity =
        (if severity j = ''BLOCKER'' \<or> severity j = ''CRITICAL'' then Error
         else if severity j = ''MAJOR'' then Warning else Information),
      diagSource = src\<rparr>"
  by (simp add: mkDiagnostic_def mapSeverity_def)

lemma showSeparatedDiagnostics_remote_explicit:
  "showSeparatedDiagnostics kept [] w =
     w\<lparr>diagnosticCollection :=
         (\<lambda>k. if k \<in> filePath ` set kept
               then Some (map (mkDiagnostic ''SonarQube'') (filter (\<lambda>j. filePath j = k) kept))
               else None)\<rparr>"
proof -
  have "foldl (addDiagnostic ''SonarQube'') Map.empty kept =
      (\<lambda>k. if k \<in> filePath ` set kept
            then Some (map (mkDiagnostic ''SonarQube'') (filter (\<lambda>j. filePath j = k) kept))
            else None)"
    by (rule ext) (simp add: foldl_addDiagnostic)
  then show ?thesis
    by (simp add: showSeparatedDiagnostics_def)
qed

text \<open>
  Claim C9. When the lint run throws in a cycle whose remote branch has returned its
  issues, the refresh still returns: the result is the remote issues of a selected
  severity and nothing else, the failure is reported as an error message, and the caller
  sets its store to that result, so that the store holds, under each file, the remote
  issues kept for it and nothing else. The diagnostic collection holds, under each file
  with a kept issue and under no other, one diagnostic for each of them in their order:
  on the line before the issue's, columns 0 to 100, with the message
  \<open>SEVERITY: message (rule)\<close>, the editor severity of the issue's severity
  (\<open>Error\<close> for \<open>BLOCKER\<close> and \<open>CRITICAL\<close>, \<open>Warning\<close> for \<open>MAJOR\<close>,
  \<open>Information\<close> otherwise) and the source \<open>SonarQube\<close>.
\<close>

theorem local_failure_is_confined:
  assumes "workspaceFolders h = Some (root # rest)"
    and "existsSync h (configPath h root)"
    and "readConfig h (configPath h root) = Inr cfg"
    and "remoteBranch h mode root cfg w = Some (Inr sonarIssues, w1)"
    and "mode = NewAll \<or> mode = NewFile \<or> mode = OverallAll"
    and "filesToAnalyze h mode = Inr files"
    and "lintFiles h files = Inl m"
    and "kept = filter (\<lambda>i. severity i \<in> set (selectedSeverities h)) sonarIssues"
    and "published =
           (\<lambda>k. if k \<in> filePath ` set kept
                 then Some (map (\<lambda>j.
                   \<lparr>diagRange = \<lparr>rangeStartLine = line j - 1, rangeStartCharacter = 0,
                                 rangeEndLine = line j - 1, rangeEndCharacter = 100\<rparr>,
                    diagMessage =
                      (if severity j = ''BLOCKER'' \<or> severity j = ''CRITICAL'' \<or>
                          severity j = ''MAJOR'' \<or> severity j = ''MINOR''
                       then severity j else ''INFO'') @
                      '': '' @ message j @ '' ('' @ rule j @ '')'',
                    diagSeverity =
                      (if severity j = ''BLOCKER'' \<or> severity j = ''CRITICAL'' then Error
                       else if severity j = ''MAJOR'' then Warning else Information),
                    diagSource = ''SonarQube''\<rparr>) (filter (\<lambda>j. filePath j = k) kept))
                 else None)"
    and "w2 = w1\<lparr>lintRuns := lintRuns w1 @ [files],
                 errorMessages := errorMessages w1 @ [''ESLint failed: '' @ m],
                 consoleErrors := consoleErrors w1 @ [Thrown m],
                 diagnosticCollection := published\<rparr>"
  shows "refreshAllIssues h mode w = Some (kept, w2) \<and>
         refreshIssuesCommand h mode (w, p) = Some (w2, setIssues kept p) \<and>
         errorMessages w2 = errorMessages w @ [''ESLint failed: '' @ m] \<and>
         (\<forall>k. map_of (issuesByFile (setIssues kept p)) k =
                (if k \<in> filePath ` set kept then Some (filter (\<lambda>j. filePath j = k) kept) else None)) \<and>
         (\<forall>i\<in>set sonarIssues. severity i \<in> set (selectedSeverities h) \<longrightarrow>
            i \<in> set kept \<and>
            i \<in> set (the (map_of (issuesByFile (setIssues kept p)) (filePath i))) \<and>
            diagnosticCollection w2 (filePath i) \<noteq> None)"
proof -
  have run: "isNewMode mode \<or> mode = OverallAll"
    using assms(5) by (auto simp: isNewMode_cases)
  have l: "analyzeLocal h mode w1 =
      (Inr [], w1\<lparr>lintRuns := lintRuns w1 @ [files],
                  errorMessages := errorMessages w1 @ [''ESLint failed: '' @ m],
                  consoleErrors := consoleErrors w1 @ [Thrown m]\<rparr>)"
    by (simp add: analyzeLocal_runs [OF run assms(6)] assms(7))
  have k: "filterBySeverity (selectedSeverities h) sonarIssues = kept"
    by (simp add: filterBySeverity_def assms(8))
  have pub: "published =
      (\<lambda>k. if k \<in> filePath ` set kept
            then Some (map (mkDiagnostic ''SonarQube'') (filter (\<lambda>j. filePath j = k) kept))
            else None)"
    unfolding assms(9) mkDiagnostic_explicit ..
  have a: "refreshAllIssues h mode w = Some (kept, w2)"
    by (simp add: refresh_configured [OF assms(1-3)] assms(4) finishRefresh_def l publishIssues_eq
        filterBySeverity_Nil k showSeparatedDiagnostics_remote_explicit assms(10) pub)
  have b: "refreshIssuesCommand h mode (w, p) = Some (w2, setIssues kept p)"
    by (simp add: refreshIssuesCommand_def a)
  from remoteBranch_touches_requests [OF assms(4)] have "errorMessages w1 = errorMessages w"
    by auto
  then have c: "errorMessages w2 = errorMessages w @ [''ESLint failed: '' @ m]"
    by (simp add: assms(10))
  have s: "map_of (issuesByFile (setIssues kept p)) k =
      (if k \<in> filePath ` set kept then Some (filter (\<lambda>j. filePath j = k) kept) else None)" for k
    by (simp add: setIssues_issuesByFile foldl_groupIssue_map_of)
  have d: "\<forall>i\<in>set sonarIssues. severity i \<in> set (selectedSeverities h) \<longrightarrow>
            i \<in> set kept \<and>
            i \<in> set (the (map_of (issuesByFile (setIssues kept p)) (filePath i))) \<and>
            diagnosticCollection w2 (filePath i) \<noteq> None"
  proof (intro ballI impI)
    fix i
    assume "i \<in> set sonarIssues" and "severity i \<in> set (selectedSeverities h)"
    then have in_kept: "i \<in> set kept"
      by (simp add: assms(8))
    then have img: "filePath i \<in> filePath ` set kept"
      by (rule imageI)
    have st: "i \<in> set (the (map_of (issuesByFile (setIssues kept p)) (filePath i)))"
      using img in_kept by (simp add: s)
    have g: "diagnosticCollection w2 (filePath i) \<noteq> None"
      using img by (simp add: assms(10) pub)
    from in_kept st g show "i \<in> set kept \<and>
            i \<in> set (the (map_of (issuesByFile (setIssues kept p)) (filePath i))) \<and>
            diagnosticCollection w2 (filePath i) \<noteq> None"
      by (intro conjI)
  qed
  from a b c s d show ?thesis by blast
qed

theorem local_failure_is_confined_witness:
  "map_option fst (refreshAllIssues brokenLintHost OverallAll exampleWorld) = Some [exampleSonarIssue] \<and>
   map_option (errorMessages \<circ> snd) (refreshAllIssues brokenLintHost OverallAll exampleWorld) =
     Some [''ESLint failed: Failed to load parser''] \<and>
   map_option (\<lambda>st. map_of (issuesByFile (snd st)) ''/ws/a.ts'')
     (refreshIssuesCommand brokenLintHost OverallAll (exampleWorld, exampleProvider)) =
     Some (Some [exampleSonarIssue]) \<and>
   map_option (\<lambda>st. diagnosticCollection (fst st) ''/ws/a.ts'')
     (refreshIssuesCommand brokenLintHost OverallAll (exampleWorld, exampleProvider)) =
     Some (Some [\<lparr>diagRange = \<lparr>rangeStartLine = 11, rangeStartCharacter = 0,
                                rangeEndLine = 11, rangeEndCharacter = 100\<rparr>,
                   diagMessage = ''MAJOR: Remove this unused import (typescript:S1128)'',
                   diagSeverity = Warning, diagSource = ''SonarQube''\<rparr>]) \<and>
   map_option (\<lambda>st. diagnosticCollection (fst st) ''/ws/lib/util.js'')
     (refreshIssuesCommand brokenLintHost OverallAll (exampleWorld, exampleProvider)) = Some None"
proof -
  let ?cfg = "\<lparr>cfgServer = Some ''http://sonar.local'', cfgToken = Some ''t0k'',
               cfgProjectKey = Some ''proj''\<rparr>"
  let ?w1 = "exampleWorld\<lparr>requests := requests exampleWorld @
       [issuesRequest exampleHost ''/ws'' (Some ''http://sonar.local'') (Some ''t0k'')
          (Some ''proj'') (if OverallAll = OverallFile then Some ''/ws/a.ts'' else None) 1]\<rparr>"
  have f: "workspaceFolders brokenLintHost = Some (''/ws'' # [])"
    "existsSync brokenLintHost (configPath brokenLintHost ''/ws'')"
    "readConfig brokenLintHost (configPath brokenLintHost ''/ws'') = Inr ?cfg"
    by (simp_all add: brokenLintHost_def exampleHost_def configPath_def)
  have "remoteBranch brokenLintHost OverallAll ''/ws'' ?cfg exampleWorld =
        remoteBranch exampleHost OverallAll ''/ws'' ?cfg exampleWorld"
    by (rule remoteBranch_cong) (simp_all add: brokenLintHost_def)
  then have r: "remoteBranch brokenLintHost OverallAll ''/ws'' ?cfg exampleWorld =
      Some (Inr [exampleSonarIssue], ?w1)"
    by (simp only: example_remote [of OverallAll, simplified])
       (simp add: example_remote)
  have run: "OverallAll = NewAll \<or> OverallAll = NewFile \<or> OverallAll = OverallAll"
    by simp
  have "filesToAnalyze brokenLintHost OverallAll = filesToAnalyze exampleHost OverallAll"
    by (rule filesToAnalyze_cong) (simp_all add: brokenLintHost_def)
  then have files: "filesToAnalyze brokenLintHost OverallAll = Inr [''/ws/a.ts'', ''/ws/lib/util.js'']"
    by (simp add: example_files)
  have broken: "lintFiles brokenLintHost [''/ws/a.ts'', ''/ws/lib/util.js''] = Inl ''Failed to load parser''"
    by (simp add: brokenLintHost_def)
  have kept: "[exampleSonarIssue] =
      filter (\<lambda>i. severity i \<in> set (selectedSeverities brokenLintHost)) [exampleSonarIssue]"
    by (simp add: brokenLintHost_def example_host_fields exampleSonarIssue_def)
  have fields: "filePath exampleSonarIssue = ''/ws/a.ts''" "line exampleSonarIssue = 12"
    "severity exampleSonarIssue = ''MAJOR''" "message exampleSonarIssue = ''Remove this unused import''"
    "rule exampleSonarIssue = ''typescript:S1128''"
    by (simp_all add: exampleSonarIssue_def)
  have empty: "errorMessages exampleWorld = []"
    by (simp add: exampleWorld_def)
  from local_failure_is_confined [OF f r run files broken kept refl refl, of exampleProvider] empty
  show ?thesis
    by (simp add: fields)
qed

end
